theory Spec2Isabelle
  imports Main "HOL-Library.AList" "HOL-Library.Sublist"
begin

section \<open>The input: structure-type definitions\<close>

text \<open>
  \<^verbatim>\<open>build_data_description\<close> reads a dataclass through \<^verbatim>\<open>dataclasses.fields\<close>: every
  field has a name, a declared type and a default, which is the sentinel \<^verbatim>\<open>MISSING\<close> when
  none was declared.  A default, and the metadata of an \<^verbatim>\<open>Annotated\<close> type, is an arbitrary
  Python object; the code only ever asks whether it is \<^verbatim>\<open>MISSING\<close> and whether its type is
  exactly \<^verbatim>\<open>int\<close>.
\<close>

datatype 'v py_object =
    PyNone
  | PyInt int
  | PyOther 'v

text \<open>
  The type objects a field can declare.  \<open>Opaque k\<close> is any type object that is neither a
  dataclass, nor one of the builtins \<^verbatim>\<open>str\<close>, \<^verbatim>\<open>bytes\<close>, \<^verbatim>\<open>list\<close>, nor an \<^verbatim>\<open>Annotated\<close> or
  \<^verbatim>\<open>list\<close> alias; the kinds of the elementary registry are among these.
  \<open>Annotated t ms\<close> is \<^verbatim>\<open>Annotated[t, *ms]\<close>, whose \<^verbatim>\<open>get_args\<close> is \<open>t # ms\<close>;
  \<open>ListAlias ts\<close> is an alias whose \<^verbatim>\<open>get_origin\<close> is \<^verbatim>\<open>list\<close> and whose \<^verbatim>\<open>get_args\<close> is \<open>ts\<close>.
  The default of a field is \<open>None\<close> for \<^verbatim>\<open>MISSING\<close>.
\<close>

datatype ('k, 'v) py_type =
    Opaque 'k
  | StrT
  | BytesT
  | ListT
  | Dataclass 'k "('k, 'v) field list"
  | Annotated "('k, 'v) py_type" "'v py_object list"
  | ListAlias "('k, 'v) py_type list"
and ('k, 'v) field =
    Field (field_name: string) (field_type: "('k, 'v) py_type")
      (field_default: "'v py_object option")

section \<open>The elementary type registry and the interpreter\<close>

text \<open>
  The module \<^verbatim>\<open>bytechomp.datatypes\<close> supplies \<^verbatim>\<open>ELEMENTARY_TYPE_LIST\<close> and the three
  dictionaries keyed by elementary kind.  They are a parameter of the development: a list of
  kinds and three finite maps, so that a key missing from a dictionary is a \<^verbatim>\<open>KeyError\<close>.
  \<open>type_str\<close> is Python's \<^verbatim>\<open>str\<close> of a type object, which the messages interpolate.

  The same record carries the limits of the interpreter that two expressions of the builder
  meet.  \<open>maxsize\<close> is \<^verbatim>\<open>sys.maxsize\<close>, the largest index: \<^verbatim>\<open>[x] * length\<close> raises
  \<^verbatim>\<open>OverflowError\<close> for a \<^verbatim>\<open>length\<close> outside \<open>- maxsize - 1 .. maxsize\<close>.
  \<open>list_fits n\<close> tells whether a list of \<open>n\<close> items can be allocated; \<^verbatim>\<open>[x] * length\<close> raises
  \<^verbatim>\<open>MemoryError\<close> when it cannot.  \<open>int_max_str_digits\<close> is
  \<^verbatim>\<open>sys.get_int_max_str_digits()\<close>, zero when there is no limit: the conversion of an \<^verbatim>\<open>int\<close>
  of more digits to decimal, as in \<^verbatim>\<open>f"{length}s"\<close>, raises \<^verbatim>\<open>ValueError\<close>.
\<close>

record ('k, 'v) registry =
  ELEMENTARY_TYPE_LIST :: "'k list"
  TYPE_TO_PYTYPE :: "'k \<rightharpoonup> ('k, 'v) py_type option"
  TYPE_TO_TAG :: "'k \<rightharpoonup> string"
  TYPE_TO_LENGTH :: "'k \<rightharpoonup> int"
  type_str :: "('k, 'v) py_type \<Rightarrow> string"
  maxsize :: int
  list_fits :: "int \<Rightarrow> bool"
  int_max_str_digits :: int

section \<open>The description tree\<close>

type_synonym bytes = "char list"

record ('k, 'v) BasicParsingElement =
  parsing_type :: "('k, 'v) py_type"
  python_type :: "('k, 'v) py_type option"
  parser_tag :: string
  length_bytes :: int
  default_value :: "'v py_object"
  raw_data :: bytes
  parsed_value :: "'v py_object"

text \<open>
  The values stored in the \<^verbatim>\<open>OrderedDict\<close>: the structure type under the key
  \<^verbatim>\<open>__struct_type__\<close>, a \<^verbatim>\<open>BasicParsingElement\<close>, a Python list, or another \<^verbatim>\<open>OrderedDict\<close>.
  An \<^verbatim>\<open>OrderedDict\<close> is the list of its items in insertion order.
\<close>

datatype ('k, 'v) element =
    StructType "('k, 'v) py_type"
  | Leaf "('k, 'v) BasicParsingElement"
  | PyList "('k, 'v) element list"
  | OrderedDict "(string \<times> ('k, 'v) element) list"

type_synonym ('k, 'v) description = "(string \<times> ('k, 'v) element) list"

text \<open>
  The exceptions.  \<open>Exception msg\<close> is an \<^verbatim>\<open>Exception\<close> with the message \<open>msg\<close>.
  \<open>InvalidElement name\<close> is the \<^verbatim>\<open>Exception\<close> that the compiler raises on a value that is none
  of the kinds it knows; its message,
  \<^verbatim>\<open>invalid element type found (<name>: <class of the value>)\<close>, interpolates the class of the
  value, a text that the description does not determine, so the message is not spelled out.
  The others are the builtin exceptions of these names.
\<close>

datatype error =
    Exception string
  | InvalidElement string
  | KeyError
  | TypeError
  | OverflowError
  | MemoryError
  | ValueError

section \<open>Formatting\<close>

text \<open>Python's \<^verbatim>\<open>str\<close> of an \<^verbatim>\<open>int\<close>, as the f-strings \<^verbatim>\<open>f"{length}s"\<close> use it.\<close>

definition digit_char :: "nat \<Rightarrow> char" where
  "digit_char d = ''0123456789'' ! d"

fun str_nat :: "nat \<Rightarrow> string" where
  "str_nat n = (if n < 10 then [digit_char n] else str_nat (n div 10) @ [digit_char (n mod 10)])"

declare str_nat.simps [simp del]

definition str_int :: "int \<Rightarrow> string" where
  "str_int i = (if i < 0 then CHR ''-'' # str_nat (nat (- i)) else str_nat (nat i))"

text \<open>
  The conversion as the interpreter performs it: it is refused when the number of digits,
  the sign apart, exceeds a positive \<open>int_max_str_digits\<close>.
\<close>

definition format_int :: "('k, 'v) registry \<Rightarrow> int \<Rightarrow> error + string" where
  "format_int reg i =
     (if 0 < int_max_str_digits reg \<and>
         int_max_str_digits reg < int (length (str_nat (nat \<bar>i\<bar>)))
      then Inl ValueError
      else Inr (str_int i))"

section \<open>List repetition\<close>

text \<open>
  \<^verbatim>\<open>[x] * length\<close>: the count must fit an index; a count below one gives the empty list;
  otherwise the list of that many references to \<open>x\<close>, when it can be allocated.
\<close>

definition list_repeat :: "('k, 'v) registry \<Rightarrow> 'a \<Rightarrow> int \<Rightarrow> error + 'a list" where
  "list_repeat reg x n =
     (if n < - maxsize reg - 1 \<or> maxsize reg < n then Inl OverflowError
      else if n \<le> 0 then Inr []
      else if \<not> list_fits reg n then Inl MemoryError
      else Inr (replicate (nat n) x))"

section \<open>Schema builder\<close>

text \<open>\<^verbatim>\<open>None if field.default == MISSING else field.default\<close>\<close>

definition default_or_none :: "'v py_object option \<Rightarrow> 'v py_object" where
  "default_or_none d = (case d of None \<Rightarrow> PyNone | Some v \<Rightarrow> v)"

text \<open>
  The \<^verbatim>\<open>BasicParsingElement\<close> of an elementary kind, as both the plain and the list branch
  construct it: the three dictionary reads in the order of the keyword arguments.
\<close>

definition elementary_element ::
  "('k, 'v) registry \<Rightarrow> 'k \<Rightarrow> 'v py_object \<Rightarrow> error + ('k, 'v) BasicParsingElement" where
  "elementary_element reg k dv =
     (case TYPE_TO_PYTYPE reg k of
        None \<Rightarrow> Inl KeyError
      | Some p \<Rightarrow>
          (case TYPE_TO_TAG reg k of
             None \<Rightarrow> Inl KeyError
           | Some t \<Rightarrow>
               (case TYPE_TO_LENGTH reg k of
                  None \<Rightarrow> Inl KeyError
                | Some l \<Rightarrow>
                    Inr \<lparr>parsing_type = Opaque k, python_type = p, parser_tag = t,
                         length_bytes = l, default_value = dv, raw_data = [],
                         parsed_value = PyNone\<rparr>)))"

definition msg_nested_default :: "string \<Rightarrow> string" where
  "msg_nested_default name =
     ''cannot have default value on nested types (field: '' @ name @ '')''"

definition msg_two_arguments :: "string \<Rightarrow> string" where
  "msg_two_arguments name =
     ''annotated value should only have two arguments (field: '' @ name @ '')''"

definition msg_not_integer :: string where
  "msg_not_integer = ''second annotated argument must be an integer to denote length''"

definition msg_one_kind :: "string \<Rightarrow> string" where
  "msg_one_kind name =
     ''list must contain only one kind of data type (field: '' @ name @ '')''"

definition msg_list_type :: "string \<Rightarrow> string \<Rightarrow> string" where
  "msg_list_type ty name = ''unsupported list type: '' @ ty @ '' (field: '' @ name @ '')''"

definition msg_annotated_type :: "string \<Rightarrow> string \<Rightarrow> string" where
  "msg_annotated_type ty name =
     ''unsupported annotated type: '' @ ty @ '' (field: '' @ name @ '')''"

definition msg_unannotated :: "string \<Rightarrow> string" where
  "msg_unannotated name =
     ''cannot have unannotated list, string, or bytes type (length required, field: ''
       @ name @ '')''"

definition msg_data_type :: "string \<Rightarrow> string \<Rightarrow> string" where
  "msg_data_type ty name = ''unsupported data type ('' @ ty @ '') on field '' @ name"

text \<open>
  \<open>build_data_description\<close> is the function of the source, \<open>build_fields\<close> its loop over
  \<^verbatim>\<open>fields(datatype)\<close> with the dictionary under construction as state, and \<open>build_field\<close>
  the body of the loop: the value stored under the field's name, or the exception raised.
  \<^verbatim>\<open>get_args\<close> of an \<^verbatim>\<open>Annotated\<close> type is the tuple of the type and its metadata, of
  length \<open>1 + length ms\<close>, and \<^verbatim>\<open>args[1]\<close> is \<open>hd ms\<close> once that length is two.
  A store into the \<^verbatim>\<open>OrderedDict\<close> replaces the value of a key that is present, in place,
  and appends a new key otherwise.  The element of a repeated sequence is built before it is
  repeated, and the digits of a length are formatted when the leaf is constructed.
\<close>

fun build_data_description ::
    "('k, 'v) registry \<Rightarrow> ('k, 'v) py_type \<Rightarrow> error + ('k, 'v) description"
  and build_fields ::
    "('k, 'v) registry \<Rightarrow> ('k, 'v) field list \<Rightarrow> ('k, 'v) description
      \<Rightarrow> error + ('k, 'v) description"
  and build_field :: "('k, 'v) registry \<Rightarrow> ('k, 'v) field \<Rightarrow> error + ('k, 'v) element"
where
  "build_data_description reg (Dataclass c fs) =
     build_fields reg fs [(''__struct_type__'', StructType (Dataclass c fs))]"
| "build_data_description reg (Opaque k) = Inl TypeError"
| "build_data_description reg StrT = Inl TypeError"
| "build_data_description reg BytesT = Inl TypeError"
| "build_data_description reg ListT = Inl TypeError"
| "build_data_description reg (Annotated t ms) = Inl TypeError"
| "build_data_description reg (ListAlias ts) = Inl TypeError"
| "build_fields reg [] object_description = Inr object_description"
| "build_fields reg (f # fs) object_description =
     (case build_field reg f of
        Inl e \<Rightarrow> Inl e
      | Inr el \<Rightarrow> build_fields reg fs (AList.update (field_name f) el object_description))"
| "build_field reg (Field name (Opaque k) dflt) =
     (if k \<in> set (ELEMENTARY_TYPE_LIST reg)
      then (case elementary_element reg k (default_or_none dflt) of
              Inl e \<Rightarrow> Inl e
            | Inr b \<Rightarrow> Inr (Leaf b))
      else Inl (Exception (msg_data_type (type_str reg (Opaque k)) name)))"
| "build_field reg (Field name (Dataclass c fs) dflt) =
     (if dflt \<noteq> None then Inl (Exception (msg_nested_default name))
      else (case build_data_description reg (Dataclass c fs) of
              Inl e \<Rightarrow> Inl e
            | Inr d \<Rightarrow> Inr (OrderedDict d)))"
| "build_field reg (Field name (Annotated arg_type ms) dflt) =
     (if 1 + length ms \<noteq> 2 then Inl (Exception (msg_two_arguments name))
      else
        (case hd ms of
           PyInt len \<Rightarrow>
             (case arg_type of
                StrT \<Rightarrow>
                  (case format_int reg len of
                     Inl e \<Rightarrow> Inl e
                   | Inr digits \<Rightarrow>
                       Inr (Leaf \<lparr>parsing_type = StrT, python_type = Some StrT,
                                  parser_tag = digits @ ''s'', length_bytes = len,
                                  default_value = default_or_none dflt, raw_data = [],
                                  parsed_value = PyNone\<rparr>))
              | BytesT \<Rightarrow>
                  (case format_int reg len of
                     Inl e \<Rightarrow> Inl e
                   | Inr digits \<Rightarrow>
                       Inr (Leaf \<lparr>parsing_type = BytesT, python_type = Some BytesT,
                                  parser_tag = digits @ ''p'', length_bytes = len,
                                  default_value = default_or_none dflt, raw_data = [],
                                  parsed_value = PyNone\<rparr>))
              | ListAlias list_type_args \<Rightarrow>
                  (case list_type_args of
                     [list_type] \<Rightarrow>
                       (case list_type of
                          Opaque k \<Rightarrow>
                            (if k \<in> set (ELEMENTARY_TYPE_LIST reg)
                             then (case elementary_element reg k PyNone of
                                     Inl e \<Rightarrow> Inl e
                                   | Inr b \<Rightarrow>
                                       (case list_repeat reg (Leaf b) len of
                                          Inl e \<Rightarrow> Inl e
                                        | Inr xs \<Rightarrow> Inr (PyList xs)))
                             else Inl (Exception
                                    (msg_list_type (type_str reg list_type) name)))
                        | Dataclass c fs \<Rightarrow>
                            (case build_data_description reg (Dataclass c fs) of
                               Inl e \<Rightarrow> Inl e
                             | Inr d \<Rightarrow>
                                 (case list_repeat reg (OrderedDict d) len of
                                    Inl e \<Rightarrow> Inl e
                                  | Inr xs \<Rightarrow> Inr (PyList xs)))
                        | _ \<Rightarrow>
                            Inl (Exception (msg_list_type (type_str reg list_type) name)))
                   | _ \<Rightarrow> Inl (Exception (msg_one_kind name)))
              | _ \<Rightarrow> Inl (Exception (msg_annotated_type (type_str reg arg_type) name)))
         | _ \<Rightarrow> Inl (Exception msg_not_integer)))"
| "build_field reg (Field name ListT dflt) = Inl (Exception (msg_unannotated name))"
| "build_field reg (Field name BytesT dflt) = Inl (Exception (msg_unannotated name))"
| "build_field reg (Field name StrT dflt) = Inl (Exception (msg_unannotated name))"
| "build_field reg (Field name (ListAlias ts) dflt) =
     Inl (Exception (msg_data_type (type_str reg (ListAlias ts)) name))"

section \<open>Pattern compiler\<close>

text \<open>
  \<open>pattern_items\<close> is the loop over \<^verbatim>\<open>description.items()\<close> and \<open>pattern_sub_elements\<close>
  the loop over a list value; both carry the pattern built so far.
\<close>

definition msg_invalid_list :: "string \<Rightarrow> string" where
  "msg_invalid_list name = ''invalid list type found ('' @ name @ '')''"

fun build_data_pattern :: "('k, 'v) description \<Rightarrow> error + string"
  and pattern_items :: "string \<Rightarrow> ('k, 'v) description \<Rightarrow> error + string"
  and pattern_sub_elements :: "string \<Rightarrow> string \<Rightarrow> ('k, 'v) element list \<Rightarrow> error + string"
where
  "build_data_pattern description = pattern_items [] description"
| "pattern_items pattern [] = Inr pattern"
| "pattern_items pattern ((name, root_element) # items) =
     (if name = ''__struct_type__'' then pattern_items pattern items
      else
        (case root_element of
           Leaf b \<Rightarrow> pattern_items (pattern @ parser_tag b) items
         | PyList sub_elements \<Rightarrow>
             (case pattern_sub_elements pattern name sub_elements of
                Inl e \<Rightarrow> Inl e
              | Inr pattern' \<Rightarrow> pattern_items pattern' items)
         | OrderedDict d \<Rightarrow>
             (case build_data_pattern d of
                Inl e \<Rightarrow> Inl e
              | Inr p \<Rightarrow> pattern_items (pattern @ p) items)
         | StructType t \<Rightarrow> Inl (InvalidElement name)))"
| "pattern_sub_elements pattern name [] = Inr pattern"
| "pattern_sub_elements pattern name (sub_element # sub_elements) =
     (case sub_element of
        Leaf b \<Rightarrow> pattern_sub_elements (pattern @ parser_tag b) name sub_elements
      | OrderedDict d \<Rightarrow>
          (case build_data_pattern d of
             Inl e \<Rightarrow> Inl e
           | Inr p \<Rightarrow> pattern_sub_elements (pattern @ p) name sub_elements)
      | _ \<Rightarrow> Inl (Exception (msg_invalid_list name)))"

section \<open>Notions used to state the properties\<close>

text \<open>The pattern compiler returns a pattern on a description, rather than raising.\<close>

definition compiles :: "('k, 'v) description \<Rightarrow> bool" where
  "compiles d = (\<not> isl (build_data_pattern d))"


text \<open>
  What one field adds to the pattern: the element the builder stores for it, compiled as the
  only entry of a dictionary under the field's name.
\<close>

definition field_pattern :: "('k, 'v) registry \<Rightarrow> ('k, 'v) field \<Rightarrow> error + string" where
  "field_pattern reg f =
     (case build_field reg f of
        Inl e \<Rightarrow> Inl e
      | Inr el \<Rightarrow> build_data_pattern [(field_name f, el)])"

text \<open>All \<^verbatim>\<open>BasicParsingElement\<close>s of a description, at any depth, in order.\<close>

fun element_leaves :: "('k, 'v) element \<Rightarrow> ('k, 'v) BasicParsingElement list" where
  "element_leaves (StructType t) = []"
| "element_leaves (Leaf b) = [b]"
| "element_leaves (PyList xs) = concat (map element_leaves xs)"
| "element_leaves (OrderedDict d) = concat (map (\<lambda>item. element_leaves (snd item)) d)"

definition description_leaves ::
  "('k, 'v) description \<Rightarrow> ('k, 'v) BasicParsingElement list" where
  "description_leaves d = concat (map (\<lambda>item. element_leaves (snd item)) d)"

text \<open>
  The length qualifiers of the fixed-length strings and byte blobs that a structure type
  declares, directly or inside nested structures and repeated sequences.
\<close>

fun string_lengths :: "('k, 'v) py_type \<Rightarrow> int list"
  and fields_string_lengths :: "('k, 'v) field list \<Rightarrow> int list"
where
  "string_lengths (Dataclass c fs) = fields_string_lengths fs"
| "string_lengths (Annotated StrT [PyInt n]) = [n]"
| "string_lengths (Annotated BytesT [PyInt n]) = [n]"
| "string_lengths (Annotated (ListAlias [t]) ms) = string_lengths t"
| "string_lengths t = []"
| "fields_string_lengths [] = []"
| "fields_string_lengths (Field name t dflt # fs) = string_lengths t @ fields_string_lengths fs"

text \<open>
  Modelled from the spec: the contents of \<^verbatim>\<open>bytechomp.datatypes\<close> are not part of the
  sources at hand.  The spec requires of the registry that it defines, for each elementary
  kind, a tag, a fixed byte length and a value type (\<open>registry_complete\<close>); a tag is a
  symbol of the pack primitive and a byte length a size, hence non-empty and positive
  (\<open>registry_positive\<close>).
\<close>

definition registry_complete :: "('k, 'v) registry \<Rightarrow> bool" where
  "registry_complete reg =
     list_all (\<lambda>k. TYPE_TO_PYTYPE reg k \<noteq> None \<and> TYPE_TO_TAG reg k \<noteq> None \<and>
                    TYPE_TO_LENGTH reg k \<noteq> None) (ELEMENTARY_TYPE_LIST reg)"


definition registry_positive :: "('k, 'v) registry \<Rightarrow> bool" where
  "registry_positive reg =
     list_all (\<lambda>k. TYPE_TO_TAG reg k \<noteq> Some [] \<and>
                    (case TYPE_TO_LENGTH reg k of None \<Rightarrow> True | Some l \<Rightarrow> 0 < l))
       (ELEMENTARY_TYPE_LIST reg)"

text \<open>
  Modelled from the spec: a registry with three of the kinds the spec names (unsigned
  integers of 8 and 32 bits, a 32-bit float) and the tags of its scenarios, on which the
  definitions are evaluated.  The limits are those of a 64-bit CPython 3.11 with its default
  settings, with room for a list of a million items.
\<close>

definition example_registry :: "(string, unit) registry" where
  "example_registry =
     \<lparr>ELEMENTARY_TYPE_LIST = [''U8'', ''U32'', ''F32''],
      TYPE_TO_PYTYPE = [''U8'' \<mapsto> Some (Opaque ''int''), ''U32'' \<mapsto> Some (Opaque ''int''),
                        ''F32'' \<mapsto> Some (Opaque ''float'')],
      TYPE_TO_TAG = [''U8'' \<mapsto> ''B'', ''U32'' \<mapsto> ''I'', ''F32'' \<mapsto> ''f''],
      TYPE_TO_LENGTH = [''U8'' \<mapsto> 1, ''U32'' \<mapsto> 4, ''F32'' \<mapsto> 4],
      type_str = (\<lambda>t. ''<type>''),
      maxsize = 9223372036854775807,
      list_fits = (\<lambda>n. n \<le> 1000000),
      int_max_str_digits = 4300\<rparr>"

text \<open>The structure \<^verbatim>\<open>{a: U32 = 7, b: Annotated[str, 4], c: Annotated[List[U8], 3]}\<close>.\<close>

definition Sample_fields :: "(string, unit) field list" where
  "Sample_fields =
     [Field ''a'' (Opaque ''U32'') (Some (PyInt 7)),
      Field ''b'' (Annotated StrT [PyInt 4]) None,
      Field ''c'' (Annotated (ListAlias [Opaque ''U8'']) [PyInt 3]) None]"

text \<open>\<^verbatim>\<open>Point = {x: F32, y: F32}\<close>\<close>

definition Point_fields :: "(string, unit) field list" where
  "Point_fields = [Field ''x'' (Opaque ''F32'') None, Field ''y'' (Opaque ''F32'') None]"

text \<open>\<^verbatim>\<open>{a: U32, inner: Point}\<close>\<close>

definition Outer_fields :: "(string, unit) field list" where
  "Outer_fields =
     [Field ''a'' (Opaque ''U32'') None,
      Field ''inner'' (Dataclass ''Point'' Point_fields) None]"

text \<open>\<^verbatim>\<open>{s: Annotated[str, 0]}\<close> and the leaf it builds to.\<close>

definition Zero_fields :: "(string, unit) field list" where
  "Zero_fields = [Field ''s'' (Annotated StrT [PyInt 0]) None]"

definition zero_leaf :: "(string, unit) BasicParsingElement" where
  "zero_leaf =
     \<lparr>parsing_type = StrT, python_type = Some StrT, parser_tag = ''0s'', length_bytes = 0,
      default_value = PyNone, raw_data = [], parsed_value = PyNone\<rparr>"

text \<open>
  What holds of a leaf of a built description, \<open>S\<close> being the length qualifiers that the
  type definition declares for strings and byte blobs: its tag is not empty; the length of a
  string or blob leaf is one of the declared qualifiers, and any other length is positive.
\<close>

definition leaf_sound :: "int set \<Rightarrow> ('k, 'v) BasicParsingElement \<Rightarrow> bool" where
  "leaf_sound S b =
     (parser_tag b \<noteq> [] \<and>
      (if parsing_type b = StrT \<or> parsing_type b = BytesT then length_bytes b \<in> S
       else 0 < length_bytes b))"

section \<open>The pattern loops\<close>

lemma pattern_sub_elements_acc:
  "pattern_sub_elements acc name xs =
     (case pattern_sub_elements [] name xs of Inl e \<Rightarrow> Inl e | Inr p \<Rightarrow> Inr (acc @ p))"
proof (induction xs arbitrary: acc)
  case Nil
  then show ?case by simp
next
  case (Cons x xs)
  have step: "pattern_sub_elements (acc @ q) name xs =
      (case pattern_sub_elements q name xs of Inl e \<Rightarrow> Inl e | Inr p \<Rightarrow> Inr (acc @ p))" for q
    using Cons.IH [of "acc @ q"] Cons.IH [of q] by (simp split: sum.splits)
  show ?case
  proof (cases x)
    case (Leaf b)
    then show ?thesis using step [of "parser_tag b"] by simp
  next
    case (OrderedDict d)
    then show ?thesis using step by (simp split: sum.splits)
  qed simp_all
qed

lemma pattern_items_acc:
  "pattern_items acc d =
     (case pattern_items [] d of Inl e \<Rightarrow> Inl e | Inr p \<Rightarrow> Inr (acc @ p))"
proof (induction d arbitrary: acc)
  case Nil
  then show ?case by simp
next
  case (Cons x d)
  obtain name el where x: "x = (name, el)" by (cases x)
  have step: "pattern_items (acc @ q) d =
      (case pattern_items q d of Inl e \<Rightarrow> Inl e | Inr p \<Rightarrow> Inr (acc @ p))" for q
    using Cons.IH [of "acc @ q"] Cons.IH [of q] by (simp split: sum.splits)
  show ?case
  proof (cases "name = ''__struct_type__''")
    case True
    then show ?thesis using x Cons.IH [of acc] by simp
  next
    case False
    show ?thesis
    proof (cases el)
      case (StructType t)
      then show ?thesis using x False by simp
    next
      case (Leaf b)
      then show ?thesis using x False step [of "parser_tag b"] by simp
    next
      case (PyList xs)
      show ?thesis
      proof (cases "pattern_sub_elements [] name xs")
        case (Inl e)
        then show ?thesis
          using x False PyList pattern_sub_elements_acc [of acc name xs] by simp
      next
        case (Inr q)
        then show ?thesis
          using x False PyList pattern_sub_elements_acc [of acc name xs] step [of q] by simp
      qed
    next
      case (OrderedDict d')
      then show ?thesis using x False step by (simp split: sum.splits)
    qed
  qed
qed

lemma pattern_items_append:
  "pattern_items acc (d1 @ d2) =
     (case pattern_items acc d1 of Inl e \<Rightarrow> Inl e | Inr p \<Rightarrow> pattern_items p d2)"
proof (induction d1 arbitrary: acc)
  case Nil
  then show ?case by simp
next
  case (Cons x d1)
  obtain name el where x: "x = (name, el)" by (cases x)
  show ?case
    using x Cons.IH by (cases el) (simp_all split: sum.splits)
qed

lemma build_data_pattern_append:
  "build_data_pattern (d1 @ d2) =
     (case build_data_pattern d1 of
        Inl e \<Rightarrow> Inl e
      | Inr p \<Rightarrow> (case build_data_pattern d2 of Inl e \<Rightarrow> Inl e | Inr q \<Rightarrow> Inr (p @ q)))"
proof (cases "pattern_items [] d1")
  case (Inl e)
  then show ?thesis using pattern_items_append [of "[]" d1 d2] by simp
next
  case (Inr p)
  then show ?thesis
    using pattern_items_append [of "[]" d1 d2] pattern_items_acc [of p d2] by simp
qed

section \<open>The field loop\<close>

lemma build_fields_append:
  "build_fields reg (fs @ gs) od =
     (case build_fields reg fs od of Inl e \<Rightarrow> Inl e | Inr d \<Rightarrow> build_fields reg gs d)"
  by (induction fs arbitrary: od) (simp_all split: sum.splits)

lemma update_fresh:
  "k \<notin> fst ` set od \<Longrightarrow> AList.update k v od = od @ [(k, v)]"
  by (induction od) auto

lemma build_fields_layout:
  assumes "build_fields reg fs od = Inr d"
    and "distinct (map field_name fs)"
    and "set (map field_name fs) \<inter> fst ` set od = {}"
  shows "\<exists>els. map (build_field reg) fs = map Inr els \<and>
           d = od @ zip (map field_name fs) els"
  using assms
proof (induction fs arbitrary: od)
  case Nil
  then show ?case by simp
next
  case (Cons f fs)
  from Cons.prems(1) obtain el where el: "build_field reg f = Inr el"
    and rest: "build_fields reg fs (AList.update (field_name f) el od) = Inr d"
    by (cases "build_field reg f") simp_all
  have upd: "AList.update (field_name f) el od = od @ [(field_name f, el)]"
    using Cons.prems(3) by (intro update_fresh) auto
  have d: "distinct (map field_name fs)"
    and nf: "field_name f \<notin> set (map field_name fs)"
    using Cons.prems(2) by simp_all
  have fresh: "set (map field_name fs) \<inter> fst ` set (od @ [(field_name f, el)]) = {}"
    using Cons.prems(3) nf by auto
  from Cons.IH [OF rest [unfolded upd] d fresh]
  obtain els where els: "map (build_field reg) fs = map Inr els"
    and dd: "d = (od @ [(field_name f, el)]) @ zip (map field_name fs) els"
    by blast
  have "map (build_field reg) (f # fs) = map Inr (el # els)"
    using el els by simp
  moreover have "d = od @ zip (map field_name (f # fs)) (el # els)"
    using dd by simp
  ultimately show ?case by blast
qed

lemma build_fields_other_key:
  "build_fields reg fs od = Inr d \<Longrightarrow> k \<notin> set (map field_name fs) \<Longrightarrow>
     map_of d k = map_of od k"
proof (induction fs arbitrary: od)
  case Nil
  then show ?case by simp
next
  case (Cons f fs)
  from Cons.prems(1) obtain el where el: "build_field reg f = Inr el"
    and rest: "build_fields reg fs (AList.update (field_name f) el od) = Inr d"
    by (cases "build_field reg f") simp_all
  have "map_of d k = map_of (AList.update (field_name f) el od) k"
    using Cons.IH [OF rest] Cons.prems(2) by simp
  then show ?case using Cons.prems(2) by (simp add: update_conv')
qed

lemma build_fields_lookup:
  assumes "build_fields reg fs od = Inr d"
    and "distinct (map field_name fs)"
    and "f \<in> set fs"
  shows "\<exists>el. build_field reg f = Inr el \<and> map_of d (field_name f) = Some el"
  using assms
proof (induction fs arbitrary: od)
  case Nil
  then show ?case by simp
next
  case (Cons g fs)
  from Cons.prems(1) obtain el where el: "build_field reg g = Inr el"
    and rest: "build_fields reg fs (AList.update (field_name g) el od) = Inr d"
    by (cases "build_field reg g") simp_all
  have d: "distinct (map field_name fs)"
    and ng: "field_name g \<notin> set (map field_name fs)"
    using Cons.prems(2) by simp_all
  show ?case
  proof (cases "f = g")
    case True
    have "map_of d (field_name g) = map_of (AList.update (field_name g) el od) (field_name g)"
      by (rule build_fields_other_key [OF rest ng])
    then show ?thesis using True el by (simp add: update_conv')
  next
    case False
    then have "f \<in> set fs" using Cons.prems(3) by simp
    then show ?thesis by (rule Cons.IH [OF rest d])
  qed
qed

lemma build_fields_first_error:
  assumes "\<forall>g \<in> set pre. \<exists>el. build_field reg g = Inr el"
    and "build_field reg f = Inl e"
  shows "build_fields reg (pre @ f # post) od = Inl e"
  using assms(1)
proof (induction pre arbitrary: od)
  case Nil
  then show ?case using assms(2) by simp
next
  case (Cons g pre)
  then obtain el where "build_field reg g = Inr el" by auto
  then show ?case using Cons by simp
qed

lemma build_fields_all_ok:
  assumes "\<forall>g \<in> set fs. \<exists>el. build_field reg g = Inr el"
  shows "\<exists>d. build_fields reg fs od = Inr d"
  using assms
proof (induction fs arbitrary: od)
  case Nil
  then show ?case by simp
next
  case (Cons g fs)
  then obtain el where "build_field reg g = Inr el" by auto
  then show ?case using Cons by simp
qed

section \<open>The compiler accepts what the builder returns\<close>

lemma compiles_iff: "compiles d \<longleftrightarrow> (\<exists>p. build_data_pattern d = Inr p)"
  unfolding compiles_def by (cases "build_data_pattern d") simp_all

lemma compiles_append: "compiles (d1 @ d2) \<longleftrightarrow> compiles d1 \<and> compiles d2"
  unfolding compiles_def build_data_pattern_append [of d1 d2]
  by (simp split: sum.splits)

lemma compiles_Cons: "compiles (x # d) \<longleftrightarrow> compiles [x] \<and> compiles d"
  using compiles_append [of "[x]" d] by simp

lemma compiles_update:
  "compiles od \<Longrightarrow> compiles [(k, el)] \<Longrightarrow> compiles (AList.update k el od)"
proof (induction od)
  case Nil
  then show ?case by simp
next
  case (Cons x od)
  obtain k' v where x: "x = (k', v)" by (cases x)
  from Cons.prems(1) have hd: "compiles [x]" and tl: "compiles od"
    using compiles_Cons [of x od] by simp_all
  show ?case
  proof (cases "k' = k")
    case True
    then show ?thesis
      using x tl Cons.prems(2) compiles_Cons [of "(k, el)" od] by simp
  next
    case False
    then show ?thesis
      using x hd Cons.IH [OF tl Cons.prems(2)] compiles_Cons [of x "AList.update k el od"]
      by simp
  qed
qed

lemma pattern_sub_elements_leaves:
  "pattern_sub_elements acc name (replicate n (Leaf b)) =
     Inr (acc @ concat (replicate n (parser_tag b)))"
  by (induction n arbitrary: acc) simp_all

lemma pattern_sub_elements_dicts:
  "build_data_pattern d = Inr p \<Longrightarrow>
     pattern_sub_elements acc name (replicate n (OrderedDict d)) =
       Inr (acc @ concat (replicate n p))"
  by (induction n arbitrary: acc) simp_all

lemma list_repeat_Inr:
  "list_repeat reg x n = Inr xs \<Longrightarrow> xs = replicate (nat n) x"
  by (auto simp: list_repeat_def split: if_splits)

lemma format_int_Inr:
  "format_int reg i = Inr s \<Longrightarrow> s = str_int i"
  by (auto simp: format_int_def split: if_splits)

lemma build_field_Annotated_cases:
  assumes "build_field reg (Field name (Annotated arg_type ms) dflt) = Inr el"
  obtains (str) len where "ms = [PyInt len]" "arg_type = StrT"
      "el = Leaf \<lparr>parsing_type = StrT, python_type = Some StrT,
                  parser_tag = str_int len @ ''s'', length_bytes = len,
                  default_value = default_or_none dflt, raw_data = [],
                  parsed_value = PyNone\<rparr>"
  | (bytes) len where "ms = [PyInt len]" "arg_type = BytesT"
      "el = Leaf \<lparr>parsing_type = BytesT, python_type = Some BytesT,
                  parser_tag = str_int len @ ''p'', length_bytes = len,
                  default_value = default_or_none dflt, raw_data = [],
                  parsed_value = PyNone\<rparr>"
  | (leaves) len k b where "ms = [PyInt len]" "arg_type = ListAlias [Opaque k]"
      "k \<in> set (ELEMENTARY_TYPE_LIST reg)" "elementary_element reg k PyNone = Inr b"
      "el = PyList (replicate (nat len) (Leaf b))"
  | (dicts) len c fs d where "ms = [PyInt len]" "arg_type = ListAlias [Dataclass c fs]"
      "build_data_description reg (Dataclass c fs) = Inr d"
      "el = PyList (replicate (nat len) (OrderedDict d))"
proof -
  from assms obtain m where ms: "ms = [m]"
    by (cases ms; cases "tl ms") (simp_all split: if_splits)
  from assms ms obtain len where m: "m = PyInt len"
    by (cases m) simp_all
  note b = assms [unfolded ms m]
  show ?thesis
  proof (cases arg_type)
    case StrT
    with b obtain digits where "format_int reg len = Inr digits"
      and "el = Leaf \<lparr>parsing_type = StrT, python_type = Some StrT,
                  parser_tag = digits @ ''s'', length_bytes = len,
                  default_value = default_or_none dflt, raw_data = [],
                  parsed_value = PyNone\<rparr>"
      by (cases "format_int reg len") auto
    then show ?thesis
      using str [of len] ms m StrT by (auto dest: format_int_Inr)
  next
    case BytesT
    with b obtain digits where "format_int reg len = Inr digits"
      and "el = Leaf \<lparr>parsing_type = BytesT, python_type = Some BytesT,
                  parser_tag = digits @ ''p'', length_bytes = len,
                  default_value = default_or_none dflt, raw_data = [],
                  parsed_value = PyNone\<rparr>"
      by (cases "format_int reg len") auto
    then show ?thesis
      using bytes [of len] ms m BytesT by (auto dest: format_int_Inr)
  next
    case (ListAlias ts)
    with b obtain t where ts: "ts = [t]"
      by (cases ts; cases "tl ts") simp_all
    note b' = b [unfolded ListAlias ts]
    show ?thesis
    proof (cases t)
      case (Opaque k)
      from b' Opaque have k: "k \<in> set (ELEMENTARY_TYPE_LIST reg)"
        by (simp split: if_splits)
      with b' Opaque obtain e where e: "elementary_element reg k PyNone = Inr e"
        and r: "(case list_repeat reg (Leaf e) len of
                   Inl x \<Rightarrow> Inl x | Inr xs \<Rightarrow> Inr (PyList xs)) = Inr el"
        by (cases "elementary_element reg k PyNone") auto
      from r obtain xs where "list_repeat reg (Leaf e) len = Inr xs" and "el = PyList xs"
        by (cases "list_repeat reg (Leaf e) len") auto
      then have "el = PyList (replicate (nat len) (Leaf e))"
        by (auto dest: list_repeat_Inr)
      then show ?thesis
        using leaves [of len k e] ms m ListAlias ts Opaque k e by simp
    next
      case (Dataclass c fs)
      with b' obtain d where d: "build_data_description reg (Dataclass c fs) = Inr d"
        and r: "(case list_repeat reg (OrderedDict d) len of
                   Inl x \<Rightarrow> Inl x | Inr xs \<Rightarrow> Inr (PyList xs)) = Inr el"
        by (cases "build_data_description reg (Dataclass c fs)") auto
      from r obtain xs where "list_repeat reg (OrderedDict d) len = Inr xs"
        and "el = PyList xs"
        by (cases "list_repeat reg (OrderedDict d) len") auto
      then have "el = PyList (replicate (nat len) (OrderedDict d))"
        by (auto dest: list_repeat_Inr)
      then show ?thesis
        using dicts [of len c fs d] ms m ListAlias ts Dataclass d by simp
    qed (use b' in simp_all)
  qed (use b in simp_all)
qed

lemma build_compiles:
  fixes reg :: "('k, 'v) registry"
  shows "(\<forall>d. build_data_description reg t = Inr d \<longrightarrow> compiles d)"
    and "(\<forall>d. build_fields reg fs od = Inr d \<longrightarrow> compiles od \<longrightarrow> compiles d)"
    and "(\<forall>el. build_field reg f = Inr el \<longrightarrow> (\<forall>k. compiles [(k, el)]))"
proof (induction reg t and reg fs od and reg f
    rule: build_data_description_build_fields_build_field.induct)
  case (1 reg c fs)
  then show ?case by (simp add: compiles_def)
next
  case (9 reg f fs od)
  show ?case
  proof (intro allI impI)
    fix d
    assume b: "build_fields reg (f # fs) od = Inr d" and od: "compiles od"
    from b obtain el where el: "build_field reg f = Inr el"
      and rest: "build_fields reg fs (AList.update (field_name f) el od) = Inr d"
      by (cases "build_field reg f") simp_all
    have "compiles [(field_name f, el)]" using 9(1) el by simp
    then have "compiles (AList.update (field_name f) el od)"
      using od by (intro compiles_update)
    then show "compiles d" using 9(2) [OF el] rest by simp
  qed
next
  case (10 reg name k dflt)
  then show ?case by (auto simp: compiles_def split: sum.splits if_splits)
next
  case (11 reg name c fs dflt)
  then show ?case by (auto simp: compiles_def split: sum.splits if_splits)
next
  case (12 reg name arg_type ms dflt)
  show ?case
  proof (intro allI impI)
    fix el k
    assume b: "build_field reg (Field name (Annotated arg_type ms) dflt) = Inr el"
    from b show "compiles [(k, el)]"
    proof (cases rule: build_field_Annotated_cases)
      case (str len)
      then show ?thesis by (simp add: compiles_def)
    next
      case (bytes len)
      then show ?thesis by (simp add: compiles_def)
    next
      case (leaves len k' e)
      then show ?thesis by (simp add: compiles_def pattern_sub_elements_leaves)
    next
      case (dicts len c fs d)
      have "compiles d" using 12 [of len "[Dataclass c fs]" "Dataclass c fs" "[]" c fs] dicts
        by simp
      then obtain p where "build_data_pattern d = Inr p" by (auto simp: compiles_iff)
      then show ?thesis
        using dicts(4) pattern_sub_elements_dicts [of d p "[]" k "nat len"]
        by (simp add: compiles_def)
    qed
  qed
qed (simp_all add: compiles_def)

section \<open>Reading a built description\<close>

lemma elementary_element_Inr:
  "elementary_element reg k dv = Inr b \<longleftrightarrow>
     (\<exists>p t l. TYPE_TO_PYTYPE reg k = Some p \<and> TYPE_TO_TAG reg k = Some t \<and>
        TYPE_TO_LENGTH reg k = Some l \<and>
        b = \<lparr>parsing_type = Opaque k, python_type = p, parser_tag = t, length_bytes = l,
             default_value = dv, raw_data = [], parsed_value = PyNone\<rparr>)"
  by (auto simp: elementary_element_def split: option.splits)

lemma build_data_description_lookup:
  assumes "build_data_description reg (Dataclass c fs) = Inr d"
    and "distinct (map field_name fs)"
    and "f \<in> set fs"
  shows "\<exists>el. build_field reg f = Inr el \<and> map_of d (field_name f) = Some el"
  using assms build_fields_lookup [of reg fs _ d f] by simp

lemma build_data_description_first_error:
  assumes "\<forall>g \<in> set pre. \<exists>el. build_field reg g = Inr el"
    and "build_field reg f = Inl e"
  shows "build_data_description reg (Dataclass c (pre @ f # post)) = Inl e"
  using build_fields_first_error [OF assms] by simp

lemma build_fields_some_error:
  assumes "f \<in> set fs" and "isl (build_field reg f)"
  shows "isl (build_fields reg fs od)"
  using assms
proof (induction fs arbitrary: od)
  case Nil
  then show ?case by simp
next
  case (Cons g fs)
  show ?case
  proof (cases "build_field reg g")
    case (Inl e)
    then show ?thesis by simp
  next
    case (Inr el)
    then have "f \<in> set fs" using Cons.prems by auto
    then show ?thesis using Inr Cons.IH Cons.prems(2) by simp
  qed
qed

section \<open>Elementary fields\<close>

text \<open>
  C1.  A field whose declared type is a kind of the registry is stored as a leaf: its pack
  tag, byte length and value type are the registry's entries for that kind, and its default
  value is the declared default, or \<^verbatim>\<open>None\<close> when the field declares none.
\<close>

theorem elementary_field_leaf:
  assumes "build_data_description reg (Dataclass c fs) = Inr d"
    and "distinct (map field_name fs)"
    and "Field name (Opaque k) dflt \<in> set fs"
    and "k \<in> set (ELEMENTARY_TYPE_LIST reg)"
  shows "\<exists>p t l. TYPE_TO_PYTYPE reg k = Some p \<and> TYPE_TO_TAG reg k = Some t \<and>
           TYPE_TO_LENGTH reg k = Some l \<and>
           map_of d name =
             Some (Leaf \<lparr>parsing_type = Opaque k, python_type = p, parser_tag = t,
                          length_bytes = l,
                          default_value = (case dflt of None \<Rightarrow> PyNone | Some v \<Rightarrow> v),
                          raw_data = [], parsed_value = PyNone\<rparr>)"
proof -
  from build_data_description_lookup [OF assms(1-3)]
  obtain el where el: "build_field reg (Field name (Opaque k) dflt) = Inr el"
    and look: "map_of d name = Some el"
    by auto
  from el assms(4) obtain b where b: "elementary_element reg k (default_or_none dflt) = Inr b"
    and leaf: "el = Leaf b"
    by (cases "elementary_element reg k (default_or_none dflt)") auto
  from b [unfolded elementary_element_Inr] look leaf show ?thesis
    by (auto simp: default_or_none_def)
qed

theorem elementary_field_leaf_witness:
  "\<not> isl (build_data_description example_registry (Dataclass ''Sample'' Sample_fields)) \<and>
   distinct (map field_name Sample_fields) \<and>
   Field ''a'' (Opaque ''U32'') (Some (PyInt 7)) \<in> set Sample_fields \<and>
   ''U32'' \<in> set (ELEMENTARY_TYPE_LIST example_registry) \<and>
   map_of (projr (build_data_description example_registry (Dataclass ''Sample'' Sample_fields))) ''a'' =
     Some (Leaf \<lparr>parsing_type = Opaque ''U32'', python_type = Some (Opaque ''int''),
                  parser_tag = ''I'', length_bytes = 4, default_value = PyInt 7,
                  raw_data = [], parsed_value = PyNone\<rparr>)"
proof -
  have ok: "\<not> isl (build_data_description example_registry (Dataclass ''Sample'' Sample_fields))"
    by code_simp
  then have h1: "build_data_description example_registry (Dataclass ''Sample'' Sample_fields) =
      Inr (projr (build_data_description example_registry (Dataclass ''Sample'' Sample_fields)))"
    by simp
  have h2: "distinct (map field_name Sample_fields)"
    by code_simp
  have h3: "Field ''a'' (Opaque ''U32'') (Some (PyInt 7)) \<in> set Sample_fields"
    by (simp add: Sample_fields_def)
  have h4: "''U32'' \<in> set (ELEMENTARY_TYPE_LIST example_registry)"
    by (simp add: example_registry_def)
  from elementary_field_leaf [OF h1 h2 h3 h4] ok h2 h3 h4 show ?thesis
    by (auto simp: example_registry_def)
qed

section \<open>Fixed-length strings and byte blobs\<close>

text \<open>
  C4.  \<^verbatim>\<open>Annotated[str, L]\<close> is stored as a leaf with tag \<^verbatim>\<open>"<L>s"\<close>, length \<open>L\<close> and value type
  \<^verbatim>\<open>str\<close>; \<^verbatim>\<open>Annotated[bytes, L]\<close> as a leaf with tag \<^verbatim>\<open>"<L>p"\<close>, length \<open>L\<close> and value type
  \<^verbatim>\<open>bytes\<close>.
\<close>

theorem fixed_length_field_leaf:
  assumes "build_data_description reg (Dataclass c fs) = Inr d"
    and "distinct (map field_name fs)"
    and "Field name (Annotated t [PyInt L]) dflt \<in> set fs"
    and "t = StrT \<or> t = BytesT"
  shows "map_of d name =
           Some (Leaf \<lparr>parsing_type = t, python_type = Some t,
                        parser_tag = str_int L @ (if t = StrT then ''s'' else ''p''),
                        length_bytes = L,
                        default_value = (case dflt of None \<Rightarrow> PyNone | Some v \<Rightarrow> v),
                        raw_data = [], parsed_value = PyNone\<rparr>)"
proof -
  from build_data_description_lookup [OF assms(1-3)]
  obtain el where el: "build_field reg (Field name (Annotated t [PyInt L]) dflt) = Inr el"
    and look: "map_of d name = Some el"
    by auto
  from el show ?thesis
  proof (cases rule: build_field_Annotated_cases)
    case (str len)
    then show ?thesis using look by (simp add: default_or_none_def)
  next
    case (bytes len)
    then show ?thesis using look by (simp add: default_or_none_def)
  next
    case (leaves len k b)
    then show ?thesis using assms(4) by auto
  next
    case (dicts len c' gs d')
    then show ?thesis using assms(4) by auto
  qed
qed

theorem fixed_length_field_leaf_witness:
  "\<not> isl (build_data_description example_registry (Dataclass ''Sample'' Sample_fields)) \<and>
   distinct (map field_name Sample_fields) \<and>
   Field ''b'' (Annotated StrT [PyInt 4]) None \<in> set Sample_fields \<and>
   map_of (projr (build_data_description example_registry (Dataclass ''Sample'' Sample_fields)))
       ''b'' =
     Some (Leaf \<lparr>parsing_type = StrT, python_type = Some StrT, parser_tag = ''4s'',
                  length_bytes = 4, default_value = PyNone, raw_data = [],
                  parsed_value = PyNone\<rparr>)"
proof -
  have ok: "\<not> isl (build_data_description example_registry (Dataclass ''Sample'' Sample_fields))"
    by code_simp
  then have h1: "build_data_description example_registry (Dataclass ''Sample'' Sample_fields) =
      Inr (projr (build_data_description example_registry (Dataclass ''Sample'' Sample_fields)))"
    by simp
  have h2: "distinct (map field_name Sample_fields)"
    by code_simp
  have h3: "Field ''b'' (Annotated StrT [PyInt 4]) None \<in> set Sample_fields"
    by (simp add: Sample_fields_def)
  have tag: "str_int 4 @ ''s'' = ''4s''"
    by code_simp
  from fixed_length_field_leaf [OF h1 h2 h3] ok h2 h3 tag show ?thesis
    by simp
qed

section \<open>Nested structures\<close>

text \<open>
  C5.  A field whose declared type is a dataclass and which declares a default makes the
  build raise \<^verbatim>\<open>cannot have default value on nested types (field: <name>)\<close>; the fields
  before it are the ones that built.  Without a default the builder recurses, and the
  description of the nested type is what it stores under the field's name.
\<close>

theorem nested_field_default:
  "((\<forall>g \<in> set pre. \<not> isl (build_field reg g)) \<longrightarrow>
      build_data_description reg
          (Dataclass c (pre @ Field name (Dataclass c' gs) (Some v) # post)) =
        Inl (Exception (''cannot have default value on nested types (field: '' @ name @ '')''))
      \<and> sublist name (''cannot have default value on nested types (field: '' @ name @ '')''))
   \<and> build_field reg (Field name (Dataclass c' gs) None) =
        (case build_data_description reg (Dataclass c' gs) of
           Inl e \<Rightarrow> Inl e
         | Inr d' \<Rightarrow> Inr (OrderedDict d'))
   \<and> (build_data_description reg (Dataclass c fs) = Inr d \<longrightarrow>
        distinct (map field_name fs) \<longrightarrow>
        Field name (Dataclass c' gs) None \<in> set fs \<longrightarrow>
        (\<exists>d'. build_data_description reg (Dataclass c' gs) = Inr d' \<and>
              map_of d name = Some (OrderedDict d')))"
proof (intro conjI impI)
  assume pre: "\<forall>g \<in> set pre. \<not> isl (build_field reg g)"
  then have "\<forall>g \<in> set pre. \<exists>el. build_field reg g = Inr el"
    by (metis sum.collapse(2))
  moreover have "build_field reg (Field name (Dataclass c' gs) (Some v)) =
      Inl (Exception (msg_nested_default name))"
    by simp
  ultimately show "build_data_description reg
          (Dataclass c (pre @ Field name (Dataclass c' gs) (Some v) # post)) =
        Inl (Exception (''cannot have default value on nested types (field: '' @ name @ '')''))"
    unfolding msg_nested_default_def by (rule build_data_description_first_error)
next
  show "sublist name (''cannot have default value on nested types (field: '' @ name @ '')'')"
    by (rule sublist_appendI)
next
  show "build_field reg (Field name (Dataclass c' gs) None) =
        (case build_data_description reg (Dataclass c' gs) of
           Inl e \<Rightarrow> Inl e
         | Inr d' \<Rightarrow> Inr (OrderedDict d'))"
    by simp
next
  assume "build_data_description reg (Dataclass c fs) = Inr d"
    and "distinct (map field_name fs)"
    and "Field name (Dataclass c' gs) None \<in> set fs"
  from build_data_description_lookup [OF this]
  obtain el where el: "build_field reg (Field name (Dataclass c' gs) None) = Inr el"
    and look: "map_of d name = Some el"
    by auto
  from el look show "\<exists>d'. build_data_description reg (Dataclass c' gs) = Inr d' \<and>
              map_of d name = Some (OrderedDict d')"
    by (cases "build_fields reg gs [(''__struct_type__'', StructType (Dataclass c' gs))]") auto
qed

lemma not_isl_Inr: "\<not> isl x \<Longrightarrow> \<exists>y. x = Inr y"
  by (cases x) simp_all

theorem nested_field_default_witness:
  "\<not> isl (build_field example_registry (Field ''a'' (Opaque ''U32'') None)) \<and>
   build_data_description example_registry
       (Dataclass ''Outer''
          ([Field ''a'' (Opaque ''U32'') None]
             @ Field ''inner'' (Dataclass ''Point'' Point_fields) (Some (PyInt 0)) # [])) =
     Inl (Exception ''cannot have default value on nested types (field: inner)'') \<and>
   \<not> isl (build_data_description example_registry
              (Dataclass ''Outer'' [Field ''inner'' (Dataclass ''Point'' Point_fields) None])) \<and>
   distinct (map field_name [Field ''inner'' (Dataclass ''Point'' Point_fields) None]) \<and>
   map_of (projr (build_data_description example_registry
              (Dataclass ''Outer'' [Field ''inner'' (Dataclass ''Point'' Point_fields) None])))
       ''inner'' =
     Some (OrderedDict
            (projr (build_data_description example_registry (Dataclass ''Point'' Point_fields))))"
proof -
  let ?outer = "Dataclass ''Outer'' [Field ''inner'' (Dataclass ''Point'' Point_fields) None]"
  have pre: "\<forall>g \<in> set [Field ''a'' (Opaque ''U32'') None].
      \<not> isl (build_field example_registry g)"
    by (simp add: example_registry_def elementary_element_def)
  have ok: "\<not> isl (build_data_description example_registry ?outer)"
    by code_simp
  then have h1: "build_data_description example_registry ?outer =
      Inr (projr (build_data_description example_registry ?outer))"
    by simp
  have h2: "distinct (map field_name [Field ''inner'' (Dataclass ''Point'' Point_fields) None])"
    by simp
  have h3: "Field ''inner'' (Dataclass ''Point'' Point_fields) None
      \<in> set [Field ''inner'' (Dataclass ''Point'' Point_fields) None]"
    by simp
  note inst = nested_field_default [of "[Field ''a'' (Opaque ''U32'') None]" example_registry
      "''Outer''" "''inner''" "''Point''" Point_fields "PyInt 0" "[]"
      "[Field ''inner'' (Dataclass ''Point'' Point_fields) None]"
      "projr (build_data_description example_registry ?outer)"]
  from inst pre have raise: "build_data_description example_registry
       (Dataclass ''Outer''
          ([Field ''a'' (Opaque ''U32'') None]
             @ Field ''inner'' (Dataclass ''Point'' Point_fields) (Some (PyInt 0)) # [])) =
     Inl (Exception ''cannot have default value on nested types (field: inner)'')"
    by simp
  from inst h1 h2 h3 have "map_of (projr (build_data_description example_registry ?outer))
       ''inner'' =
     Some (OrderedDict
            (projr (build_data_description example_registry (Dataclass ''Point'' Point_fields))))"
    by auto
  moreover have "\<not> isl (build_field example_registry (Field ''a'' (Opaque ''U32'') None))"
    using pre by simp
  ultimately show ?thesis using raise ok h2 by blast
qed

section \<open>Declarations the builder rejects\<close>

text \<open>
  A subscripted \<^verbatim>\<open>List[T]\<close> without \<^verbatim>\<open>Annotated\<close> is not one of the three type objects that
  the builder tests for a missing length: it reaches the last branch, whose message is not
  the one of the bare types, whatever the text of the type is.
\<close>

lemma list_alias_field_error:
  "build_field reg (Field name (ListAlias ts) dflt) =
     Inl (Exception (''unsupported data type ('' @ type_str reg (ListAlias ts)
       @ '') on field '' @ name))"
  by (simp add: msg_data_type_def)

lemma list_alias_message_differs:
  "build_field reg (Field name (ListAlias ts) dflt) \<noteq>
     Inl (Exception
       (''cannot have unannotated list, string, or bytes type (length required, field: ''
          @ name' @ '')''))"
  by (simp add: msg_data_type_def)

text \<open>
  C6.  A field whose declared type carries no length makes the build raise.  When the
  fields before it build, the exception for the bare \<^verbatim>\<open>list\<close>, \<^verbatim>\<open>bytes\<close> or \<^verbatim>\<open>str\<close> is
  \<^verbatim>\<open>cannot have unannotated list, string, or bytes type (length required, field: <name>)\<close>,
  and the one for a subscripted \<^verbatim>\<open>List[T]\<close> without \<^verbatim>\<open>Annotated\<close> is
  \<^verbatim>\<open>unsupported data type (<type>) on field <name>\<close>.  Both contain the field's name.
\<close>

theorem unannotated_field_error:
  assumes "t = ListT \<or> t = BytesT \<or> t = StrT \<or> t = ListAlias ts"
  shows "isl (build_data_description reg (Dataclass c (pre @ Field name t dflt # post))) \<and>
    ((\<forall>g \<in> set pre. \<not> isl (build_field reg g)) \<longrightarrow>
       build_data_description reg (Dataclass c (pre @ Field name t dflt # post)) =
         Inl (Exception
           (if t = ListAlias ts
            then ''unsupported data type ('' @ type_str reg t @ '') on field '' @ name
            else ''cannot have unannotated list, string, or bytes type (length required, field: ''
                   @ name @ '')''))) \<and>
    sublist name
      (if t = ListAlias ts
       then ''unsupported data type ('' @ type_str reg t @ '') on field '' @ name
       else ''cannot have unannotated list, string, or bytes type (length required, field: ''
              @ name @ '')'')"
proof (intro conjI impI)
  let ?msg = "if t = ListAlias ts
       then ''unsupported data type ('' @ type_str reg t @ '') on field '' @ name
       else ''cannot have unannotated list, string, or bytes type (length required, field: ''
              @ name @ '')''"
  have err: "build_field reg (Field name t dflt) = Inl (Exception ?msg)"
    using assms by (auto simp: msg_unannotated_def msg_data_type_def)
  then show "isl (build_data_description reg (Dataclass c (pre @ Field name t dflt # post)))"
    using build_fields_some_error [of "Field name t dflt" "pre @ Field name t dflt # post" reg]
    by simp
  assume "\<forall>g \<in> set pre. \<not> isl (build_field reg g)"
  then have "\<forall>g \<in> set pre. \<exists>el. build_field reg g = Inr el"
    by (simp add: not_isl_Inr)
  then show "build_data_description reg (Dataclass c (pre @ Field name t dflt # post)) =
         Inl (Exception ?msg)"
    using err by (rule build_data_description_first_error)
next
  have "sublist name (''unsupported data type ('' @ type_str reg t @ '') on field '' @ name)"
    using sublist_appendI [of name "''unsupported data type ('' @ type_str reg t
      @ '') on field ''" "[]"]
    by simp
  moreover have "sublist name
      (''cannot have unannotated list, string, or bytes type (length required, field: ''
         @ name @ '')'')"
    by (rule sublist_appendI)
  ultimately show "sublist name
      (if t = ListAlias ts
       then ''unsupported data type ('' @ type_str reg t @ '') on field '' @ name
       else ''cannot have unannotated list, string, or bytes type (length required, field: ''
              @ name @ '')'')"
    by (simp only: if_split) blast
qed

theorem unannotated_field_error_witness:
  "\<not> isl (build_field example_registry (Field ''a'' (Opaque ''U32'') None)) \<and>
   build_data_description example_registry
       (Dataclass ''Bad'' ([Field ''a'' (Opaque ''U32'') None] @ Field ''text'' StrT None # [])) =
     Inl (Exception
       ''cannot have unannotated list, string, or bytes type (length required, field: text)'') \<and>
   build_data_description example_registry
       (Dataclass ''Bad''
          ([Field ''a'' (Opaque ''U32'') None]
             @ Field ''xs'' (ListAlias [Opaque ''U8'']) None # [])) =
     Inl (Exception ''unsupported data type (<type>) on field xs'')"
proof -
  have h: "StrT = ListT \<or> StrT = BytesT \<or> (StrT :: (string, unit) py_type) = StrT \<or>
      StrT = ListAlias []"
    by simp
  have h': "ListAlias [Opaque ''U8''] = ListT \<or> ListAlias [Opaque ''U8''] = BytesT \<or>
      (ListAlias [Opaque ''U8''] :: (string, unit) py_type) = StrT \<or>
      ListAlias [Opaque ''U8''] = ListAlias [Opaque ''U8'']"
    by simp
  have pre: "\<forall>g \<in> set [Field ''a'' (Opaque ''U32'') None].
      \<not> isl (build_field example_registry g)"
    by (simp add: example_registry_def elementary_element_def)
  from unannotated_field_error [OF h, of example_registry "''Bad''"
      "[Field ''a'' (Opaque ''U32'') None]" "''text''" None "[]"] pre
  have bare: "build_data_description example_registry
       (Dataclass ''Bad'' ([Field ''a'' (Opaque ''U32'') None] @ Field ''text'' StrT None # [])) =
     Inl (Exception
       ''cannot have unannotated list, string, or bytes type (length required, field: text)'')"
    by simp
  from unannotated_field_error [OF h', of example_registry "''Bad''"
      "[Field ''a'' (Opaque ''U32'') None]" "''xs''" None "[]"] pre
  have subscripted: "build_data_description example_registry
       (Dataclass ''Bad''
          ([Field ''a'' (Opaque ''U32'') None]
             @ Field ''xs'' (ListAlias [Opaque ''U8'']) None # [])) =
     Inl (Exception ''unsupported data type (<type>) on field xs'')"
    by (simp add: example_registry_def)
  have "\<not> isl (build_field example_registry (Field ''a'' (Opaque ''U32'') None))"
    using pre by simp
  with bare subscripted show ?thesis by blast
qed

theorem unannotated_field_error_counterexample:
  "build_data_description example_registry
       (Dataclass ''Bad'' [Field ''xs'' (ListAlias [Opaque ''U8'']) None]) =
     Inl (Exception ''unsupported data type (<type>) on field xs'') \<and>
   \<not> sublist ''unannotated'' ''unsupported data type (<type>) on field xs'' \<and>
   \<not> sublist ''length required'' ''unsupported data type (<type>) on field xs''"
proof (intro conjI)
  show "build_data_description example_registry
       (Dataclass ''Bad'' [Field ''xs'' (ListAlias [Opaque ''U8'']) None]) =
     Inl (Exception ''unsupported data type (<type>) on field xs'')"
    by (simp add: example_registry_def msg_data_type_def)
  show "\<not> sublist ''unannotated'' ''unsupported data type (<type>) on field xs''"
    by code_simp
  show "\<not> sublist ''length required'' ''unsupported data type (<type>) on field xs''"
    by code_simp
qed

lemma annotated_arity_error:
  assumes "length ms \<noteq> 1"
  shows "build_field reg (Field name (Annotated t ms) dflt) =
      Inl (Exception
        (''annotated value should only have two arguments (field: '' @ name @ '')''))"
    and "sublist name (''annotated value should only have two arguments (field: '' @ name @ '')'')"
proof -
  show "build_field reg (Field name (Annotated t ms) dflt) =
      Inl (Exception
        (''annotated value should only have two arguments (field: '' @ name @ '')''))"
    using assms by (simp add: msg_two_arguments_def)
  show "sublist name (''annotated value should only have two arguments (field: '' @ name @ '')'')"
    by (rule sublist_appendI)
qed

lemma annotated_not_integer_error:
  assumes "\<forall>n. m \<noteq> PyInt n"
  shows "build_field reg (Field name (Annotated t [m]) dflt) =
      Inl (Exception ''second annotated argument must be an integer to denote length'')"
  using assms by (cases m) (simp_all add: msg_not_integer_def)

text \<open>
  C7.  An \<^verbatim>\<open>Annotated\<close> type whose number of arguments is not two is rejected with a message
  that names the field.  One whose second argument is not an \<^verbatim>\<open>int\<close> is rejected with the
  fixed message \<^verbatim>\<open>second annotated argument must be an integer to denote length\<close>, in which
  the field's name does not occur: the structure \<^verbatim>\<open>{payload: Annotated[str, x]}\<close>, \<open>x\<close> not an
  \<^verbatim>\<open>int\<close>, shows it.
\<close>

theorem annotated_not_integer_message:
  "build_data_description reg
       (Dataclass c [Field ''payload'' (Annotated StrT [PyOther v]) None]) =
     Inl (Exception ''second annotated argument must be an integer to denote length'') \<and>
   \<not> sublist ''payload'' ''second annotated argument must be an integer to denote length''"
proof
  show "build_data_description reg
       (Dataclass c [Field ''payload'' (Annotated StrT [PyOther v]) None]) =
     Inl (Exception ''second annotated argument must be an integer to denote length'')"
    by (simp add: msg_not_integer_def)
  show "\<not> sublist ''payload'' ''second annotated argument must be an integer to denote length''"
    by code_simp
qed

section \<open>Determinism of the pipeline\<close>

text \<open>
  C8.  Two runs of \<^verbatim>\<open>build_data_description\<close> on one type definition that both return, each
  followed by \<^verbatim>\<open>build_data_pattern\<close>, produce a pattern, and the same one.
\<close>

theorem pattern_deterministic:
  assumes "build_data_description reg t = Inr d1"
    and "build_data_description reg t = Inr d2"
  shows "\<exists>p. build_data_pattern d1 = Inr p \<and> build_data_pattern d2 = Inr p"
proof -
  have "compiles d1" using build_compiles(1) [of reg t] assms(1) by simp
  then obtain p where "build_data_pattern d1 = Inr p" by (auto simp: compiles_iff)
  moreover have "d2 = d1" using assms by simp
  ultimately show ?thesis by simp
qed

theorem pattern_deterministic_witness:
  "\<not> isl (build_data_description example_registry (Dataclass ''Sample'' Sample_fields)) \<and>
   build_data_pattern
       (projr (build_data_description example_registry (Dataclass ''Sample'' Sample_fields))) =
     Inr ''I4sBBB''"
proof -
  have ok: "\<not> isl (build_data_description example_registry (Dataclass ''Sample'' Sample_fields))"
    by code_simp
  then have h1: "build_data_description example_registry (Dataclass ''Sample'' Sample_fields) =
      Inr (projr (build_data_description example_registry (Dataclass ''Sample'' Sample_fields)))"
    by simp
  have val: "build_data_pattern
       (projr (build_data_description example_registry (Dataclass ''Sample'' Sample_fields))) =
     Inr ''I4sBBB''"
    by code_simp
  from pattern_deterministic [OF h1 h1] ok val show ?thesis by simp
qed

section \<open>Repeated sequences\<close>

lemma registry_complete_element:
  assumes "registry_complete reg" and "k \<in> set (ELEMENTARY_TYPE_LIST reg)"
  shows "\<exists>b. elementary_element reg k dv = Inr b"
  using assms
  by (auto simp: registry_complete_def list_all_iff elementary_element_def
      split: option.splits)

text \<open>
  C3.  \<^verbatim>\<open>Annotated[List[K], N]\<close> with \<open>K\<close> a kind of the registry is stored as a list of
  \<open>N\<close> leaves (none when \<open>N\<close> is negative), each the leaf that a field of type \<open>K\<close> without
  default gives, and the compiler appends, for that list, the tag of \<open>K\<close> that many times.
\<close>

theorem elementary_list_block:
  assumes "build_data_description reg (Dataclass c fs) = Inr d"
    and "distinct (map field_name fs)"
    and "Field name (Annotated (ListAlias [Opaque k]) [PyInt N]) dflt \<in> set fs"
    and "k \<in> set (ELEMENTARY_TYPE_LIST reg)"
  shows "\<exists>b. build_field reg (Field name (Opaque k) None) = Inr (Leaf b) \<and>
           default_value b = PyNone \<and>
           TYPE_TO_TAG reg k = Some (parser_tag b) \<and>
           map_of d name = Some (PyList (replicate (nat N) (Leaf b))) \<and>
           length (replicate (nat N) (Leaf b)) = nat N \<and>
           (name \<noteq> ''__struct_type__'' \<longrightarrow>
              (\<forall>pattern. pattern_items pattern [(name, PyList (replicate (nat N) (Leaf b)))] =
                 Inr (pattern @ concat (replicate (nat N) (parser_tag b)))))"
proof -
  from build_data_description_lookup [OF assms(1-3)]
  obtain el where
    el: "build_field reg (Field name (Annotated (ListAlias [Opaque k]) [PyInt N]) dflt) = Inr el"
    and look: "map_of d name = Some el"
    by auto
  from el obtain b where b: "elementary_element reg k PyNone = Inr b"
    and block: "el = PyList (replicate (nat N) (Leaf b))"
    by (cases rule: build_field_Annotated_cases) auto
  have "build_field reg (Field name (Opaque k) None) = Inr (Leaf b)"
    using b assms(4) by (simp add: default_or_none_def)
  moreover have "default_value b = PyNone" "TYPE_TO_TAG reg k = Some (parser_tag b)"
    using b [unfolded elementary_element_Inr] by auto
  moreover have "map_of d name = Some (PyList (replicate (nat N) (Leaf b)))"
    using look block by simp
  moreover have "pattern_items pattern [(name, PyList (replicate (nat N) (Leaf b)))] =
      Inr (pattern @ concat (replicate (nat N) (parser_tag b)))"
    if "name \<noteq> ''__struct_type__''" for pattern
    using that by (simp add: pattern_sub_elements_leaves)
  ultimately show ?thesis by auto
qed

theorem elementary_list_block_witness:
  "\<not> isl (build_data_description example_registry (Dataclass ''Sample'' Sample_fields)) \<and>
   distinct (map field_name Sample_fields) \<and>
   Field ''c'' (Annotated (ListAlias [Opaque ''U8'']) [PyInt 3]) None \<in> set Sample_fields \<and>
   ''U8'' \<in> set (ELEMENTARY_TYPE_LIST example_registry) \<and>
   (\<exists>b. map_of (projr (build_data_description example_registry
                 (Dataclass ''Sample'' Sample_fields))) ''c'' = Some (PyList [Leaf b, Leaf b, Leaf b]) \<and>
        parser_tag b = ''B'' \<and>
        pattern_items ''I4s'' [(''c'', PyList [Leaf b, Leaf b, Leaf b])] = Inr ''I4sBBB'')"
proof -
  have ok: "\<not> isl (build_data_description example_registry (Dataclass ''Sample'' Sample_fields))"
    by code_simp
  then have h1: "build_data_description example_registry (Dataclass ''Sample'' Sample_fields) =
      Inr (projr (build_data_description example_registry (Dataclass ''Sample'' Sample_fields)))"
    by simp
  have h2: "distinct (map field_name Sample_fields)"
    by code_simp
  have h3: "Field ''c'' (Annotated (ListAlias [Opaque ''U8'']) [PyInt 3]) None \<in> set Sample_fields"
    by (simp add: Sample_fields_def)
  have h4: "''U8'' \<in> set (ELEMENTARY_TYPE_LIST example_registry)"
    by (simp add: example_registry_def)
  have three: "replicate (nat 3) x = [x, x, x]" for x :: 'a
    by (simp add: eval_nat_numeral)
  from elementary_list_block [OF h1 h2 h3 h4] obtain b where
    tag: "TYPE_TO_TAG example_registry ''U8'' = Some (parser_tag b)"
    and look: "map_of (projr (build_data_description example_registry
                 (Dataclass ''Sample'' Sample_fields))) ''c'' =
               Some (PyList (replicate (nat 3) (Leaf b)))"
    and pat: "\<forall>pattern. pattern_items pattern [(''c'', PyList (replicate (nat 3) (Leaf b)))] =
                 Inr (pattern @ concat (replicate (nat 3) (parser_tag b)))"
    by auto
  from tag have b: "parser_tag b = ''B''"
    by (simp add: example_registry_def)
  from pat [rule_format, of "''I4s''"] b
  have "pattern_items ''I4s'' [(''c'', PyList [Leaf b, Leaf b, Leaf b])] = Inr ''I4sBBB''"
    unfolding three by simp
  with look b ok h2 h3 h4 show ?thesis unfolding three by blast
qed

text \<open>
  C10.  A repetition count below one is not rejected as such.  The element of the sequence
  is built first, so the registry must hold the kind's entries, or the nested structure must
  build; then, for a count that fits an index of the interpreter, the field is stored as the
  empty list, the structure builds when its other fields do, and the empty list leaves the
  pattern as it is.  A count below \<open>- maxsize - 1\<close> makes \<^verbatim>\<open>[x] * length\<close> raise
  \<^verbatim>\<open>OverflowError\<close>.
\<close>

theorem empty_repeated_block:
  assumes "- maxsize reg - 1 \<le> N" and "N \<le> 0" and "0 \<le> maxsize reg"
    and "(\<exists>k. inner = Opaque k \<and> k \<in> set (ELEMENTARY_TYPE_LIST reg) \<and> registry_complete reg) \<or>
         (\<exists>c' gs. inner = Dataclass c' gs \<and> \<not> isl (build_data_description reg inner))"
    and "\<forall>g \<in> set (pre @ post). \<not> isl (build_field reg g)"
    and "distinct (map field_name
           (pre @ Field name (Annotated (ListAlias [inner]) [PyInt N]) dflt # post))"
  shows "build_field reg (Field name (Annotated (ListAlias [inner]) [PyInt N]) dflt) =
           Inr (PyList []) \<and>
         (\<exists>d. build_data_description reg
                 (Dataclass c
                    (pre @ Field name (Annotated (ListAlias [inner]) [PyInt N]) dflt # post)) =
               Inr d \<and>
              map_of d name = Some (PyList [])) \<and>
         pattern_items pattern [(name, PyList [])] = Inr pattern"
proof -
  let ?f = "Field name (Annotated (ListAlias [inner]) [PyInt N]) dflt"
  have n: "list_repeat reg x N = Inr []" for x :: "('a, 'b) element"
    using assms(1-3) by (simp add: list_repeat_def)
  from assms(4) have f: "build_field reg ?f = Inr (PyList [])"
  proof
    assume e: "\<exists>k. inner = Opaque k \<and> k \<in> set (ELEMENTARY_TYPE_LIST reg) \<and> registry_complete reg"
    then obtain k where k: "inner = Opaque k" "k \<in> set (ELEMENTARY_TYPE_LIST reg)"
      by blast
    from e have "registry_complete reg"
      by blast
    from registry_complete_element [OF this k(2), of PyNone]
    obtain b where "elementary_element reg k PyNone = Inr b" ..
    then show ?thesis using k n by simp
  next
    assume "\<exists>c' gs. inner = Dataclass c' gs \<and> \<not> isl (build_data_description reg inner)"
    then obtain c' gs where inner: "inner = Dataclass c' gs"
      and ok: "\<not> isl (build_data_description reg (Dataclass c' gs))"
      by blast
    from not_isl_Inr [OF ok] obtain d' where
      "build_data_description reg (Dataclass c' gs) = Inr d'" ..
    then show ?thesis using inner n by simp
  qed
  have "\<forall>g \<in> set (pre @ ?f # post). \<exists>el. build_field reg g = Inr el"
  proof
    fix g
    assume "g \<in> set (pre @ ?f # post)"
    then consider "g = ?f" | "g \<in> set (pre @ post)" by auto
    then show "\<exists>el. build_field reg g = Inr el"
    proof cases
      case 1
      then show ?thesis using f by simp
    next
      case 2
      then have "\<not> isl (build_field reg g)" using assms(5) by blast
      then show ?thesis by (rule not_isl_Inr)
    qed
  qed
  from build_fields_all_ok [OF this]
  obtain d where d: "build_data_description reg (Dataclass c (pre @ ?f # post)) = Inr d"
    by auto
  have "?f \<in> set (pre @ ?f # post)" by simp
  from build_data_description_lookup [OF d assms(6) this] f
  have "map_of d name = Some (PyList [])" by simp
  moreover have "pattern_items pattern [(name, PyList [])] = Inr pattern"
    by simp
  ultimately show ?thesis using f d by blast
qed

theorem empty_repeated_block_witness:
  "(- maxsize example_registry - 1 \<le> 0 \<and> (0::int) \<le> 0 \<and> 0 \<le> maxsize example_registry \<and>
    ''U8'' \<in> set (ELEMENTARY_TYPE_LIST example_registry) \<and>
    registry_complete example_registry \<and>
    build_data_description example_registry
        (Dataclass ''Empty''
           ([] @ Field ''c'' (Annotated (ListAlias [Opaque ''U8'']) [PyInt 0]) None # [])) =
      Inr [(''__struct_type__'',
            StructType (Dataclass ''Empty''
              [Field ''c'' (Annotated (ListAlias [Opaque ''U8'']) [PyInt 0]) None])),
           (''c'', PyList [])]) \<and>
   (- maxsize example_registry - 1 \<le> - 2 \<and> (- 2 :: int) \<le> 0 \<and>
    \<not> isl (build_data_description example_registry (Dataclass ''Point'' Point_fields)) \<and>
    build_field example_registry
        (Field ''pts'' (Annotated (ListAlias [Dataclass ''Point'' Point_fields]) [PyInt (- 2)])
           None) =
      Inr (PyList []))"
proof -
  have m: "maxsize example_registry = 9223372036854775807"
    by (simp add: example_registry_def)
  have b0: "- maxsize example_registry - 1 \<le> 0" and b2: "- maxsize example_registry - 1 \<le> - 2"
    and b3: "0 \<le> maxsize example_registry"
    unfolding m by simp_all
  have h2: "(\<exists>k. (Opaque ''U8'' :: (string, unit) py_type) = Opaque k \<and>
        k \<in> set (ELEMENTARY_TYPE_LIST example_registry) \<and> registry_complete example_registry) \<or>
      (\<exists>c' gs. (Opaque ''U8'' :: (string, unit) py_type) = Dataclass c' gs \<and>
        \<not> isl (build_data_description example_registry (Opaque ''U8'')))"
    by (simp add: example_registry_def registry_complete_def)
  have h3: "\<forall>g \<in> set ([] @ []). \<not> isl (build_field example_registry g)"
    by simp
  have h4: "distinct (map field_name
      ([] @ Field ''c'' (Annotated (ListAlias [Opaque ''U8'']) [PyInt 0]) None # []))"
    by simp
  have pt: "\<not> isl (build_data_description example_registry (Dataclass ''Point'' Point_fields))"
    by code_simp
  then have h2': "(\<exists>k. Dataclass ''Point'' Point_fields = Opaque k \<and>
        k \<in> set (ELEMENTARY_TYPE_LIST example_registry) \<and> registry_complete example_registry) \<or>
      (\<exists>c' gs. Dataclass ''Point'' Point_fields = Dataclass c' gs \<and>
        \<not> isl (build_data_description example_registry (Dataclass ''Point'' Point_fields)))"
    by simp
  have h4': "distinct (map field_name
      ([] @ Field ''pts'' (Annotated (ListAlias [Dataclass ''Point'' Point_fields])
         [PyInt (- 2)]) None # []))"
    by simp
  from empty_repeated_block [OF b0 order_refl b3 h2 h3 h4, of "''Empty''" "[]"]
  obtain d where d: "build_data_description example_registry
        (Dataclass ''Empty''
           ([] @ Field ''c'' (Annotated (ListAlias [Opaque ''U8'']) [PyInt 0]) None # [])) =
      Inr d"
    and look: "map_of d ''c'' = Some (PyList [])"
    by blast
  have ev: "build_data_description example_registry
        (Dataclass ''Empty''
           ([] @ Field ''c'' (Annotated (ListAlias [Opaque ''U8'']) [PyInt 0]) None # [])) =
      Inr [(''__struct_type__'',
            StructType (Dataclass ''Empty''
              [Field ''c'' (Annotated (ListAlias [Opaque ''U8'']) [PyInt 0]) None])),
           (''c'', PyList [])]"
    by code_simp
  have b: "build_field example_registry
        (Field ''pts'' (Annotated (ListAlias [Dataclass ''Point'' Point_fields]) [PyInt (- 2)])
           None) =
      Inr (PyList [])"
    using empty_repeated_block [OF b2 _ b3 h2' h3 h4', of "''Empty''" "[]"]
    by simp
  have "''U8'' \<in> set (ELEMENTARY_TYPE_LIST example_registry)"
    "registry_complete example_registry"
    by (simp_all add: example_registry_def registry_complete_def)
  with d look ev b pt b0 b2 b3 show ?thesis by simp
qed

theorem empty_repeated_block_counterexample:
  "(- 18446744073709551616 :: int) \<le> 0 \<and>
   ''U8'' \<in> set (ELEMENTARY_TYPE_LIST example_registry) \<and>
   registry_complete example_registry \<and>
   build_data_description example_registry
       (Dataclass ''Empty''
          [Field ''c'' (Annotated (ListAlias [Opaque ''U8'']) [PyInt (- 18446744073709551616)])
             None]) =
     Inl OverflowError"
proof (intro conjI)
  show "(- 18446744073709551616 :: int) \<le> 0"
    by simp
  show "''U8'' \<in> set (ELEMENTARY_TYPE_LIST example_registry)"
    by (simp add: example_registry_def)
  show "registry_complete example_registry"
    by (simp add: example_registry_def registry_complete_def)
  show "build_data_description example_registry
       (Dataclass ''Empty''
          [Field ''c'' (Annotated (ListAlias [Opaque ''U8'']) [PyInt (- 18446744073709551616)])
             None]) =
     Inl OverflowError"
    by code_simp
qed

section \<open>The pattern as a concatenation\<close>

lemma pattern_singletons:
  "compiles d \<Longrightarrow>
     \<exists>ps. map (\<lambda>x. build_data_pattern [x]) d = map Inr ps \<and>
          build_data_pattern d = Inr (concat ps)"
proof (induction d)
  case Nil
  then show ?case by simp
next
  case (Cons x d)
  from Cons.prems have hd: "compiles [x]" and tl: "compiles d"
    using compiles_Cons [of x d] by simp_all
  from hd obtain p where p: "build_data_pattern [x] = Inr p"
    by (auto simp: compiles_iff)
  from Cons.IH [OF tl] obtain ps where
    ps: "map (\<lambda>x. build_data_pattern [x]) d = map Inr ps"
    and cat: "build_data_pattern d = Inr (concat ps)"
    by blast
  have "build_data_pattern (x # d) = Inr (p @ concat ps)"
    using build_data_pattern_append [of "[x]" d] p cat by simp
  then have "map (\<lambda>x. build_data_pattern [x]) (x # d) = map Inr (p # ps) \<and>
      build_data_pattern (x # d) = Inr (concat (p # ps))"
    using p ps by simp
  then show ?case by blast
qed

lemma field_pattern_zip:
  "map (build_field reg) fs = map Inr els \<Longrightarrow>
     map (field_pattern reg) fs =
       map (\<lambda>x. build_data_pattern [x]) (zip (map field_name fs) els)"
proof (induction fs arbitrary: els)
  case Nil
  then show ?case by simp
next
  case (Cons f fs)
  then obtain el els' where els: "els = el # els'" by (cases els) auto
  with Cons.prems have el: "build_field reg f = Inr el"
    and rest: "map (build_field reg) fs = map Inr els'"
    by simp_all
  show ?case
    using Cons.IH [OF rest] el unfolding els by (simp add: field_pattern_def)
qed

lemma field_pattern_nested:
  assumes "field_pattern reg (Field name (Dataclass c' gs) dflt) = Inr p"
    and "name \<noteq> ''__struct_type__''"
  shows "\<exists>d'. build_data_description reg (Dataclass c' gs) = Inr d' \<and>
           build_data_pattern d' = Inr p"
proof (cases "build_data_description reg (Dataclass c' gs)")
  case (Inl e)
  then show ?thesis
    using assms(1) by (simp add: field_pattern_def split: if_splits)
next
  case (Inr d')
  then have "build_data_pattern d' = Inr p"
    using assms by (simp add: field_pattern_def split: if_splits sum.splits)
  then show ?thesis using Inr by simp
qed

text \<open>
  C2.  For a structure whose field names are distinct (as those of a dataclass are) and none
  of which is the key \<^verbatim>\<open>__struct_type__\<close> that the compiler skips, the pattern of the built
  description is the concatenation, in declaration order, of what each field adds; what a
  nested-structure field adds is the pattern of the nested structure's own description.
\<close>

theorem pattern_concatenates_fields:
  assumes "build_data_description reg (Dataclass c fs) = Inr d"
    and "distinct (map field_name fs)"
    and "''__struct_type__'' \<notin> set (map field_name fs)"
  shows "\<exists>ps. map (field_pattern reg) fs = map Inr ps \<and>
           build_data_pattern d = Inr (concat ps) \<and>
           (\<forall>i < length fs. \<forall>name c' gs dflt.
              fs ! i = Field name (Dataclass c' gs) dflt \<longrightarrow>
              (\<exists>d'. build_data_description reg (Dataclass c' gs) = Inr d' \<and>
                    build_data_pattern d' = Inr (ps ! i)))"
proof -
  let ?m = "(''__struct_type__'', StructType (Dataclass c fs))"
  have b: "build_fields reg fs [?m] = Inr d"
    using assms(1) by simp
  have fresh: "set (map field_name fs) \<inter> fst ` set [?m] = {}"
    using assms(3) by simp
  from build_fields_layout [OF b assms(2) fresh]
  obtain els where els: "map (build_field reg) fs = map Inr els"
    and d: "d = [?m] @ zip (map field_name fs) els"
    by blast
  have "compiles d"
    using build_compiles(1) [of reg "Dataclass c fs"] assms(1) by simp
  then have "compiles (zip (map field_name fs) els)"
    unfolding d compiles_append by simp
  from pattern_singletons [OF this]
  obtain ps where
    ps: "map (\<lambda>x. build_data_pattern [x]) (zip (map field_name fs) els) = map Inr ps"
    and cat: "build_data_pattern (zip (map field_name fs) els) = Inr (concat ps)"
    by blast
  have fp: "map (field_pattern reg) fs = map Inr ps"
    using field_pattern_zip [OF els] ps by simp
  have whole: "build_data_pattern d = Inr (concat ps)"
    using cat unfolding d by simp
  have nested: "\<exists>d'. build_data_description reg (Dataclass c' gs) = Inr d' \<and>
                    build_data_pattern d' = Inr (ps ! i)"
    if i: "i < length fs" and f: "fs ! i = Field name (Dataclass c' gs) dflt"
    for i name c' gs dflt
  proof -
    have len: "length ps = length fs"
      using fp by (metis length_map)
    have "map (field_pattern reg) fs ! i = map Inr ps ! i"
      using fp by simp
    then have p: "field_pattern reg (Field name (Dataclass c' gs) dflt) = Inr (ps ! i)"
      using i f len by simp
    have "fs ! i \<in> set fs"
      using i by simp
    then have "field_name (fs ! i) \<in> set (map field_name fs)"
      by simp
    then have "name \<in> set (map field_name fs)"
      unfolding f by simp
    then have "name \<noteq> ''__struct_type__''"
      using assms(3) by blast
    with p show ?thesis by (rule field_pattern_nested)
  qed
  from fp whole nested show ?thesis by blast
qed

theorem pattern_concatenates_fields_witness:
  "\<not> isl (build_data_description example_registry (Dataclass ''Outer'' Outer_fields)) \<and>
   distinct (map field_name Outer_fields) \<and>
   ''__struct_type__'' \<notin> set (map field_name Outer_fields) \<and>
   map (field_pattern example_registry) Outer_fields = [Inr ''I'', Inr ''ff''] \<and>
   build_data_pattern
       (projr (build_data_description example_registry (Dataclass ''Outer'' Outer_fields))) =
     Inr ''Iff'' \<and>
   build_data_pattern
       (projr (build_data_description example_registry (Dataclass ''Point'' Point_fields))) =
     Inr ''ff''"
proof -
  have ok: "\<not> isl (build_data_description example_registry (Dataclass ''Outer'' Outer_fields))"
    by code_simp
  then have h1: "build_data_description example_registry (Dataclass ''Outer'' Outer_fields) =
      Inr (projr (build_data_description example_registry (Dataclass ''Outer'' Outer_fields)))"
    by simp
  have h2: "distinct (map field_name Outer_fields)"
    by code_simp
  have h3: "''__struct_type__'' \<notin> set (map field_name Outer_fields)"
    by (simp add: Outer_fields_def)
  have fps: "map (field_pattern example_registry) Outer_fields = [Inr ''I'', Inr ''ff'']"
    by code_simp
  have second: "Outer_fields ! 1 = Field ''inner'' (Dataclass ''Point'' Point_fields) None"
    by (simp add: Outer_fields_def)
  from pattern_concatenates_fields [OF h1 h2 h3] obtain ps where
    ps: "map (field_pattern example_registry) Outer_fields = map Inr ps"
    and whole: "build_data_pattern
        (projr (build_data_description example_registry (Dataclass ''Outer'' Outer_fields))) =
      Inr (concat ps)"
    and nested: "\<forall>i < length Outer_fields. \<forall>name c' gs dflt.
        Outer_fields ! i = Field name (Dataclass c' gs) dflt \<longrightarrow>
        (\<exists>d'. build_data_description example_registry (Dataclass c' gs) = Inr d' \<and>
              build_data_pattern d' = Inr (ps ! i))"
    by blast
  from ps fps have "map Inr ps = ([Inr ''I'', Inr ''ff''] :: (error + string) list)"
    by simp
  then have val: "ps = [''I'', ''ff'']"
    by (auto simp: map_eq_Cons_conv)
  have "1 < length Outer_fields"
    by (simp add: Outer_fields_def)
  with nested second obtain d' where
    "build_data_description example_registry (Dataclass ''Point'' Point_fields) = Inr d'"
    "build_data_pattern d' = Inr (ps ! 1)"
    by blast
  then have "build_data_pattern
       (projr (build_data_description example_registry (Dataclass ''Point'' Point_fields))) =
     Inr ''ff''"
    using val by simp
  with ok h2 h3 fps whole val show ?thesis by simp
qed

text \<open>
  The hypothesis on the key is needed: a field named \<^verbatim>\<open>__struct_type__\<close> replaces the marker
  entry, and the compiler skips it.
\<close>

lemma marker_named_field_skipped:
  "build_data_description example_registry
       (Dataclass ''M'' [Field ''__struct_type__'' (Opaque ''U8'') None]) =
     Inr [(''__struct_type__'',
           Leaf \<lparr>parsing_type = Opaque ''U8'', python_type = Some (Opaque ''int''),
                 parser_tag = ''B'', length_bytes = 1, default_value = PyNone,
                 raw_data = [], parsed_value = PyNone\<rparr>)] \<and>
   build_data_pattern
       [(''__struct_type__'',
         Leaf \<lparr>parsing_type = Opaque ''U8'', python_type = Some (Opaque ''int''),
               parser_tag = ''B'', length_bytes = 1, default_value = PyNone,
               raw_data = [], parsed_value = PyNone\<rparr>) :: string \<times> (string, unit) element] =
     Inr ''''"
  by (simp add: example_registry_def elementary_element_def default_or_none_def)

section \<open>Lengths and tags of the leaves\<close>

lemma description_leaves_Cons:
  "description_leaves (x # d) = element_leaves (snd x) @ description_leaves d"
  by (simp add: description_leaves_def)

lemma description_leaves_update:
  "set (description_leaves (AList.update k v od)) \<subseteq>
     set (description_leaves od) \<union> set (element_leaves v)"
proof (induction od)
  case Nil
  then show ?case by (simp add: description_leaves_def)
next
  case (Cons x od)
  then show ?case
    by (cases x) (auto simp: description_leaves_Cons)
qed

lemma str_nat_not_Nil: "str_nat n \<noteq> []"
  by (cases "n < 10") (simp_all add: str_nat.simps [of n])

lemma str_int_not_Nil: "str_int i \<noteq> []"
  by (simp add: str_int_def str_nat_not_Nil)

lemma leaf_sound_mono: "leaf_sound S b \<Longrightarrow> S \<subseteq> S' \<Longrightarrow> leaf_sound S' b"
  by (auto simp: leaf_sound_def split: if_splits)

lemma registry_positive_element:
  assumes "registry_positive reg" and "k \<in> set (ELEMENTARY_TYPE_LIST reg)"
    and "elementary_element reg k dv = Inr b"
  shows "leaf_sound S b"
  using assms
  by (auto simp: registry_positive_def list_all_iff elementary_element_Inr leaf_sound_def)

lemma element_leaves_replicate:
  "set (element_leaves (PyList (replicate n el))) \<subseteq> set (element_leaves el)"
  by (induction n) auto

lemma fields_string_lengths_Cons:
  "fields_string_lengths (f # fs) = string_lengths (field_type f) @ fields_string_lengths fs"
  by (cases f) simp

lemma build_leaves_sound:
  fixes reg :: "('k, 'v) registry"
  shows "registry_positive reg \<longrightarrow>
           (\<forall>d. build_data_description reg t = Inr d \<longrightarrow>
              (\<forall>b \<in> set (description_leaves d). leaf_sound (set (string_lengths t)) b))"
    and "registry_positive reg \<longrightarrow>
           (\<forall>d S. build_fields reg fs od = Inr d \<longrightarrow>
              set (fields_string_lengths fs) \<subseteq> S \<longrightarrow>
              (\<forall>b \<in> set (description_leaves od). leaf_sound S b) \<longrightarrow>
              (\<forall>b \<in> set (description_leaves d). leaf_sound S b))"
    and "registry_positive reg \<longrightarrow>
           (\<forall>el. build_field reg f = Inr el \<longrightarrow>
              (\<forall>b \<in> set (element_leaves el).
                 leaf_sound (set (string_lengths (field_type f))) b))"
proof (induction reg t and reg fs od and reg f
    rule: build_data_description_build_fields_build_field.induct)
  case (1 reg c fs)
  show ?case
  proof (intro allI impI)
    fix d
    assume pos: "registry_positive reg"
      and b: "build_data_description reg (Dataclass c fs) = Inr d"
    let ?m = "(''__struct_type__'', StructType (Dataclass c fs))"
    from b have "build_fields reg fs [?m] = Inr d"
      by simp
    moreover have "\<forall>b \<in> set (description_leaves [?m]).
        leaf_sound (set (fields_string_lengths fs)) b"
      by (simp add: description_leaves_def)
    ultimately have "\<forall>b \<in> set (description_leaves d).
        leaf_sound (set (fields_string_lengths fs)) b"
      using 1 pos by blast
    then show "\<forall>b \<in> set (description_leaves d).
        leaf_sound (set (string_lengths (Dataclass c fs))) b"
      by simp
  qed
next
  case (9 reg f fs od)
  show ?case
  proof (intro allI impI)
    fix d S
    assume pos: "registry_positive reg"
      and b: "build_fields reg (f # fs) od = Inr d"
      and sub: "set (fields_string_lengths (f # fs)) \<subseteq> S"
      and od: "\<forall>b \<in> set (description_leaves od). leaf_sound S b"
    from b obtain el where el: "build_field reg f = Inr el"
      and rest: "build_fields reg fs (AList.update (field_name f) el od) = Inr d"
      by (cases "build_field reg f") simp_all
    have sub_f: "set (string_lengths (field_type f)) \<subseteq> S"
      and sub_fs: "set (fields_string_lengths fs) \<subseteq> S"
      using sub unfolding fields_string_lengths_Cons by simp_all
    have "\<forall>b \<in> set (element_leaves el). leaf_sound (set (string_lengths (field_type f))) b"
      using 9(1) pos el by blast
    then have "\<forall>b \<in> set (element_leaves el). leaf_sound S b"
      using sub_f leaf_sound_mono by blast
    then have "\<forall>b \<in> set (description_leaves (AList.update (field_name f) el od)).
        leaf_sound S b"
      using od description_leaves_update [of "field_name f" el od] by blast
    then show "\<forall>b \<in> set (description_leaves d). leaf_sound S b"
      using 9(2) [OF el] pos sub_fs rest by blast
  qed
next
  case (10 reg name k dflt)
  show ?case
  proof (intro allI impI)
    fix el
    assume pos: "registry_positive reg"
      and b: "build_field reg (Field name (Opaque k) dflt) = Inr el"
    from b have k: "k \<in> set (ELEMENTARY_TYPE_LIST reg)"
      by (simp split: if_splits)
    with b obtain e where e: "elementary_element reg k (default_or_none dflt) = Inr e"
      and el: "el = Leaf e"
      by (cases "elementary_element reg k (default_or_none dflt)") auto
    from registry_positive_element [OF pos k e] el
    show "\<forall>b \<in> set (element_leaves el).
        leaf_sound (set (string_lengths (field_type (Field name (Opaque k) dflt)))) b"
      by simp
  qed
next
  case (11 reg name c fs dflt)
  show ?case
  proof (intro allI impI)
    fix el
    assume pos: "registry_positive reg"
      and b: "build_field reg (Field name (Dataclass c fs) dflt) = Inr el"
    from b have nd: "\<not> dflt \<noteq> None"
      by (simp split: if_splits)
    with b obtain d where d: "build_data_description reg (Dataclass c fs) = Inr d"
      and el: "el = OrderedDict d"
      by (cases "build_data_description reg (Dataclass c fs)") auto
    have "\<forall>b \<in> set (description_leaves d).
        leaf_sound (set (string_lengths (Dataclass c fs))) b"
      using 11 [OF nd] pos d by blast
    then show "\<forall>b \<in> set (element_leaves el).
        leaf_sound (set (string_lengths (field_type (Field name (Dataclass c fs) dflt)))) b"
      using el by (simp add: description_leaves_def)
  qed
next
  case (12 reg name arg_type ms dflt)
  show ?case
  proof (intro allI impI)
    fix el
    assume pos: "registry_positive reg"
      and b: "build_field reg (Field name (Annotated arg_type ms) dflt) = Inr el"
    let ?S = "set (string_lengths (field_type (Field name (Annotated arg_type ms) dflt)))"
    from b show "\<forall>b \<in> set (element_leaves el). leaf_sound ?S b"
    proof (cases rule: build_field_Annotated_cases)
      case (str len)
      then show ?thesis by (simp add: leaf_sound_def)
    next
      case (bytes len)
      then show ?thesis by (simp add: leaf_sound_def)
    next
      case (leaves len k e)
      have "leaf_sound ?S e"
        using registry_positive_element [OF pos leaves(3,4)] .
      then show ?thesis
        using element_leaves_replicate [of "nat len" "Leaf e"] leaves(5) by auto
    next
      case (dicts len c fs d)
      have "\<forall>b \<in> set (description_leaves d).
          leaf_sound (set (string_lengths (Dataclass c fs))) b"
        using 12 [of len "[Dataclass c fs]" "Dataclass c fs" "[]" c fs] dicts pos
        by simp
      then have "\<forall>b \<in> set (element_leaves (OrderedDict d)). leaf_sound ?S b"
        using dicts(1,2) by (simp add: description_leaves_def)
      then show ?thesis
        using element_leaves_replicate [of "nat len" "OrderedDict d"] dicts(4) by blast
    qed
  qed
qed simp_all

text \<open>
  C9.  The builder checks the sign of no length.  With a registry whose byte lengths are
  positive and whose tags are non-empty, every leaf of a built description has a non-empty
  tag; the length of a leaf of an elementary kind is positive; the length of a string or
  byte-blob leaf is the qualifier that the type definition declares for it, positive or not:
  \<^verbatim>\<open>Annotated[str, 0]\<close> builds, to a leaf of length zero.
\<close>

theorem leaves_positive:
  assumes "registry_positive reg"
    and "build_data_description reg t = Inr d"
  shows "\<forall>b \<in> set (description_leaves d).
           parser_tag b \<noteq> [] \<and>
           (if parsing_type b = StrT \<or> parsing_type b = BytesT
            then length_bytes b \<in> set (string_lengths t)
            else 0 < length_bytes b)"
  using build_leaves_sound(1) [of reg t] assms unfolding leaf_sound_def by blast

theorem leaves_positive_witness:
  "registry_positive example_registry \<and>
   \<not> isl (build_data_description example_registry (Dataclass ''Sample'' Sample_fields)) \<and>
   string_lengths (Dataclass ''Sample'' Sample_fields) = [4] \<and>
   length (description_leaves
     (projr (build_data_description example_registry (Dataclass ''Sample'' Sample_fields)))) = 5 \<and>
   list_all (\<lambda>b. parser_tag b \<noteq> [] \<and> 0 < length_bytes b)
     (description_leaves
       (projr (build_data_description example_registry (Dataclass ''Sample'' Sample_fields))))"
proof -
  have h1: "registry_positive example_registry"
    by (simp add: registry_positive_def example_registry_def)
  have lens: "string_lengths (Dataclass ''Sample'' Sample_fields) = [4]"
    by (simp add: Sample_fields_def)
  have ok: "\<not> isl (build_data_description example_registry (Dataclass ''Sample'' Sample_fields))"
    by code_simp
  then have h2: "build_data_description example_registry (Dataclass ''Sample'' Sample_fields) =
      Inr (projr (build_data_description example_registry (Dataclass ''Sample'' Sample_fields)))"
    by simp
  have five: "length (description_leaves
     (projr (build_data_description example_registry (Dataclass ''Sample'' Sample_fields)))) = 5"
    by code_simp
  define leaves where "leaves = description_leaves
     (projr (build_data_description example_registry (Dataclass ''Sample'' Sample_fields)))"
  have sound: "\<forall>b \<in> set leaves.
      parser_tag b \<noteq> [] \<and>
      (if parsing_type b = StrT \<or> parsing_type b = BytesT then length_bytes b \<in> set [4]
       else 0 < length_bytes b)"
    using leaves_positive [OF h1 h2] unfolding leaves_def lens .
  have "\<forall>b \<in> set leaves. parser_tag b \<noteq> [] \<and> 0 < length_bytes b"
  proof
    fix b
    assume "b \<in> set leaves"
    with sound have b: "parser_tag b \<noteq> [] \<and>
      (if parsing_type b = StrT \<or> parsing_type b = BytesT then length_bytes b \<in> set [4]
       else 0 < length_bytes b)"
      by blast
    then show "parser_tag b \<noteq> [] \<and> 0 < length_bytes b"
      by (cases "parsing_type b = StrT \<or> parsing_type b = BytesT") simp_all
  qed
  then have "list_all (\<lambda>b. parser_tag b \<noteq> [] \<and> 0 < length_bytes b) leaves"
    unfolding list_all_iff .
  with h1 lens ok five show ?thesis
    unfolding leaves_def by blast
qed

theorem leaves_positive_counterexample:
  "build_data_description example_registry (Dataclass ''Zero'' Zero_fields) =
     Inr [(''__struct_type__'', StructType (Dataclass ''Zero'' Zero_fields)),
          (''s'', Leaf zero_leaf)] \<and>
   description_leaves
       [(''__struct_type__'', StructType (Dataclass ''Zero'' Zero_fields)),
        (''s'', Leaf zero_leaf)] = [zero_leaf] \<and>
   \<not> 0 < length_bytes zero_leaf"
proof (intro conjI)
  show "build_data_description example_registry (Dataclass ''Zero'' Zero_fields) =
     Inr [(''__struct_type__'', StructType (Dataclass ''Zero'' Zero_fields)),
          (''s'', Leaf zero_leaf)]"
    by code_simp
  show "description_leaves
       [(''__struct_type__'', StructType (Dataclass ''Zero'' Zero_fields)),
        (''s'', Leaf zero_leaf)] = [zero_leaf]"
    by (simp add: description_leaves_def)
  show "\<not> 0 < length_bytes zero_leaf"
    by (simp add: zero_leaf_def)
qed

end
